theory Spec2Isabelle
  imports
    Main
    "HOL-Library.Char_ord"
    "HOL-Library.List_Lexorder"
    "HOL-Library.Product_Lexorder"
    "HOL-Library.Multiset"
    "HOL-Library.AList"
begin

section \<open>Strings and numbers of the host language\<close>

text \<open>
  A string is a list of 8-bit characters, read as the UTF-16 code units below 256;
  on these, \<^verbatim>\<open>toLowerCase\<close>, \<^verbatim>\<open>trim\<close>, the regular-expression classes \<^verbatim>\<open>\d\<close> and
  \<^verbatim>\<open>\s\<close> and the default \<^verbatim>\<open>Array.prototype.sort\<close> order (code units, a prefix
  first) are as written here. Counts are the natural numbers the code counts with, all
  far below \<open>2\<^sup>5\<^sup>3\<close>.
\<close>

definition isDigit :: "char \<Rightarrow> bool" where
  "isDigit c \<longleftrightarrow> c \<in> set ''0123456789''"

definition digitVal :: "char \<Rightarrow> nat" where
  "digitVal c = of_char c - 48"

text \<open>The integer that a string of decimal digits writes (\<^verbatim>\<open>parseInt(s, 10)\<close>, before rounding).\<close>

definition parseInt :: "string \<Rightarrow> nat" where
  "parseInt ds = fold (\<lambda>c n. 10 * n + digitVal c) ds 0"

definition digitChar :: "nat \<Rightarrow> char" where
  "digitChar d = ''0123456789'' ! d"

text \<open>\<^verbatim>\<open>String(n)\<close> and the template literal \<^verbatim>\<open>`${n}`\<close> for a natural number.\<close>

fun showNat :: "nat \<Rightarrow> string" where
  "showNat n =
     (if n < 10 then [digitChar n] else showNat (n div 10) @ [digitChar (n mod 10)])"

declare showNat.simps [simp del]

text \<open>\<^verbatim>\<open>s.padStart(n, c)\<close> for a one-character pad.\<close>

definition padStart :: "nat \<Rightarrow> char \<Rightarrow> string \<Rightarrow> string" where
  "padStart n c s = replicate (n - length s) c @ s"

text \<open>White space of \<^verbatim>\<open>\s\<close> and \<^verbatim>\<open>trim\<close>: TAB, LF, VT, FF, CR, SP, NBSP.\<close>

definition isSpace :: "char \<Rightarrow> bool" where
  "isSpace c \<longleftrightarrow> (of_char c :: nat) \<in> {9, 10, 11, 12, 13, 32, 160}"

definition toLowerChar :: "char \<Rightarrow> char" where
  "toLowerChar c =
     (let n = (of_char c :: nat)
      in if (65 \<le> n \<and> n \<le> 90) \<or> (192 \<le> n \<and> n \<le> 222 \<and> n \<noteq> 215)
         then char_of (n + 32) else c)"

definition toLowerCase :: "string \<Rightarrow> string" where
  "toLowerCase s = map toLowerChar s"

definition trim :: "string \<Rightarrow> string" where
  "trim s = rev (dropWhile isSpace (rev (dropWhile isSpace s)))"

text \<open>
  \<^verbatim>\<open>parseInt\<close> gives a Number. Below \<open>2\<^sup>5\<^sup>3\<close> it is the integer the digits write, and a
  template literal prints it back digit for digit. From \<open>2\<^sup>5\<^sup>3\<close> on it is a rounded
  value (the language lets an implementation approximate long digit strings, and leaves
  the last printed digit open): the model keeps the digits it was read from.
\<close>

datatype number = Safe nat | Unsafe string

section \<open>Objects, errors and what the language leaves to its implementation\<close>

text \<open>
  A JSON object (\<^verbatim>\<open>Record<string, T>\<close>) is the association list of its own entries in
  enumeration order (\<^verbatim>\<open>Object.entries\<close>, \<^verbatim>\<open>Object.keys\<close>, \<^verbatim>\<open>Object.values\<close>), keys
  distinct. A property read \<^verbatim>\<open>o[k]\<close> and the test \<^verbatim>\<open>k in o\<close> find an own entry first
  and then what every object inherits from \<^verbatim>\<open>Object.prototype\<close>: eleven built-in
  functions and the accessor \<^verbatim>\<open>__proto__\<close>, which reads as \<^verbatim>\<open>Object.prototype\<close>
  itself. Each inherited value is truthy and has none of the data's fields
  (\<^verbatim>\<open>docs\<close>, \<^verbatim>\<open>citation\<close>).
\<close>

definition objectPrototypeNames :: "string list" where
  "objectPrototypeNames =
     [''constructor'', ''hasOwnProperty'', ''isPrototypeOf'', ''propertyIsEnumerable'',
      ''toLocaleString'', ''toString'', ''valueOf'', ''__proto__'',
      ''__defineGetter__'', ''__defineSetter__'', ''__lookupGetter__'', ''__lookupSetter__'']"

datatype 'a property = Own 'a | Inherited | Missing

definition getProperty :: "(string \<times> 'a) list \<Rightarrow> string \<Rightarrow> 'a property" where
  "getProperty obj k =
     (case map_of obj k of
        Some v \<Rightarrow> Own v
      | None \<Rightarrow> if k \<in> set objectPrototypeNames then Inherited else Missing)"

text \<open>
  A \<^verbatim>\<open>Map\<close> and a \<^verbatim>\<open>Set\<close> hold what was put into them and nothing else:
  \<^verbatim>\<open>m.get(k)\<close> is \<^const>\<open>map_of\<close> on the association list of the entries,
  \<^verbatim>\<open>m.set(k, v)\<close> is \<^const>\<open>AList.update\<close> (it overwrites in place or appends).

  Reading a field of \<^verbatim>\<open>undefined\<close> throws; it is the only error the queries raise.
\<close>

datatype error = TypeError

text \<open>
  A value of \<^verbatim>\<open>monthCounts\<close> and of a data point's \<^verbatim>\<open>citations\<close>: a number, or the
  string that \<^verbatim>\<open>+\<close> makes once one operand is not a number.
\<close>

datatype jsval = Num nat | Str string

section \<open>dataLoader.ts\<close>

text \<open>
  The interfaces of \<^verbatim>\<open>dataLoader.ts\<close>. Field names carry the record's name where two
  interfaces share a field (\<^verbatim>\<open>paperId\<close>, \<^verbatim>\<open>topic\<close>, \<^verbatim>\<open>docs\<close>, \<^verbatim>\<open>citations\<close>).
  \<^verbatim>\<open>LLMCluster\<close> and \<^verbatim>\<open>PsychCluster\<close> have the same shape.
\<close>

record doc =
  doc_title :: string
  doc_paperId :: string
  doc_abstract :: "string option"

record cluster =
  cluster_size :: nat
  cluster_topic :: string
  cluster_docs :: "doc list"

record theoryData =
  citation :: int
  theory_docs :: "string list"

record secondaryCluster =
  sub_size :: nat
  sub_topic :: string
  sub_theories :: "string list"
  sub_docs :: "doc list"

type_synonym clusterTheories = "(string \<times> theoryData) list"

type_synonym secondaryClusterData = "(string \<times> secondaryCluster) list"

text \<open>
  \<^verbatim>\<open>name.toLowerCase().replace(/theories$/i, 'theory').replace(/^mental\s+/i, '').trim()\<close>
\<close>

definition normalizeTheoryName :: "string \<Rightarrow> string" where
  "normalizeTheoryName name =
     (let s1 = toLowerCase name;
          s2 = (if drop (length s1 - 8) s1 = ''theories''
                then take (length s1 - 8) s1 @ ''theory'' else s1);
          s3 = (if take 6 s2 = ''mental'' \<and> takeWhile isSpace (drop 6 s2) \<noteq> []
                then dropWhile isSpace (drop 6 s2) else s2)
      in trim s3)"

text \<open>
  \<^verbatim>\<open>clusterName.match(/Cluster (\d+)/)\<close>: the digits of the leftmost place where
  \<^verbatim>\<open>Cluster\<close>, a space and at least one digit stand; the digit run is greedy.
\<close>

fun matchCluster :: "string \<Rightarrow> string option" where
  "matchCluster [] = None"
| "matchCluster (c # cs) =
     (let ds = takeWhile isDigit (drop 8 (c # cs))
      in if take 8 (c # cs) = ''Cluster '' \<and> ds \<noteq> [] then Some ds else matchCluster cs)"

text \<open>\<^verbatim>\<open>match ? parseInt(match[1]) : 0\<close>\<close>

definition getClusterNumber :: "string \<Rightarrow> number" where
  "getClusterNumber clusterName =
     (case matchCluster clusterName of
        Some ds \<Rightarrow> if parseInt ds < 2 ^ 53 then Safe (parseInt ds) else Unsafe ds
      | None \<Rightarrow> Safe 0)"

record topTheory =
  top_name :: string
  top_citations :: int

text \<open>
  \<^verbatim>\<open>Object.entries(clusterTheories).map(...).sort((a, b) => b.citations - a.citations).slice(0, n)\<close>.
  \<^verbatim>\<open>Array.prototype.sort\<close> is stable, so the comparator sorts stably by descending
  citations: \<^const>\<open>sort_key\<close> (insertion sort, stable) on the negated count.
\<close>

definition getTopTheories :: "clusterTheories \<Rightarrow> nat \<Rightarrow> topTheory list" where
  "getTopTheories clusterTheories n =
     take n (sort_key (\<lambda>t. - top_citations t)
       (map (\<lambda>(name, d). \<lparr>top_name = name, top_citations = citation d\<rparr>) clusterTheories))"

section \<open>useVisualizationData.ts: the hook's state\<close>

text \<open>
  The repository holds several versions of the hook. The one modelled is the latest:
  months inferred from the arXiv URL when the date is missing, theory names matched
  through their normalized form, and the theory distribution matched through the
  title map. \<^verbatim>\<open>getBipartiteEdges\<close> is the same in all of them.
\<close>

record reference =
  ref_paperId :: string

text \<open>An element of \<^verbatim>\<open>filteredPapers\<close>; \<^verbatim>\<open>references\<close> may be missing.\<close>

record paper =
  paper_paperId :: string
  paper_references :: "reference list option"

text \<open>
  An element of \<^verbatim>\<open>papersInfo\<close>. A missing \<^verbatim>\<open>paperId\<close> is the empty string (the
  guard \<^verbatim>\<open>!paper?.paperId\<close> takes both alike); a \<^verbatim>\<open>publicationDate\<close> or
  \<^verbatim>\<open>arxivUrl\<close> that is missing, null or not a string is \<^const>\<open>None\<close>.
\<close>

record paperInfo =
  info_paperId :: string
  publicationDate :: "string option"
  arxivUrl :: "string option"

text \<open>An element of \<^verbatim>\<open>refsInfo\<close>; a missing title or paperId is the empty string.\<close>

record refInfo =
  ref_title :: string
  refInfo_paperId :: string

record hookState =
  llmClusters :: "(string \<times> cluster) list"
  psychClusters :: "(string \<times> cluster) list"
  theoryPool :: "(string \<times> clusterTheories) list"
  secondaryClusters :: "(string \<times> secondaryClusterData) list"
  papersInfo :: "paperInfo list option"
  filteredPapers :: "paper list option"
  titleToPaperId :: "(string \<times> string) list"

text \<open>The title map the loader builds from \<^verbatim>\<open>refsInfo\<close> before it stores it.\<close>

definition buildTitleMap :: "refInfo list \<Rightarrow> (string \<times> string) list" where
  "buildTitleMap refsInfo =
     fold (\<lambda>r titleMap.
        if ref_title r \<noteq> [] \<and> refInfo_paperId r \<noteq> []
        then AList.update (trim (toLowerCase (ref_title r))) (refInfo_paperId r) titleMap
        else titleMap) refsInfo []"

text \<open>
  \<^verbatim>\<open>getClusterLabel\<close> lives in \<^verbatim>\<open>lib/clusterLabels\<close>, which is not among the sources:
  the functions that call it take it as the parameter \<open>label\<close>.
\<close>

datatype kind = LLM | Psych

section \<open>useVisualizationData.ts: month inference\<close>

text \<open>
  \<^verbatim>\<open>/arxiv\.org\/abs\/(\d{4})\.\d{4,5}(v\d+)?/i\<close> tried at the head of a string: the
  literal (letters in either case), four digits (group 1), a dot and at least four
  digits. The fifth digit and the version suffix are optional and decide nothing.
\<close>

definition matchArxivAt :: "string \<Rightarrow> string option" where
  "matchArxivAt s =
     (let yymm = take 4 (drop 14 s)
      in if toLowerCase (take 14 s) = ''arxiv.org/abs/''
            \<and> length yymm = 4 \<and> list_all isDigit yymm
            \<and> take 1 (drop 18 s) = ''.''
            \<and> 4 \<le> length (takeWhile isDigit (drop 19 s))
         then Some yymm else None)"

text \<open>\<^verbatim>\<open>arxivUrl.match(...)\<close>: the leftmost place where the pattern matches.\<close>

fun searchArxiv :: "string \<Rightarrow> string option" where
  "searchArxiv [] = None"
| "searchArxiv (c # cs) =
     (case matchArxivAt (c # cs) of Some yymm \<Rightarrow> Some yymm | None \<Rightarrow> searchArxiv cs)"

definition inferMonthFromArxivUrl :: "string option \<Rightarrow> string option" where
  "inferMonthFromArxivUrl u =
     (case u of
        None \<Rightarrow> None
      | Some url \<Rightarrow>
          if url = [] then None
          else (case searchArxiv url of
             None \<Rightarrow> None
           | Some yymm \<Rightarrow>
               let yy = parseInt (take 2 yymm);
                   mm = parseInt (take 2 (drop 2 yymm))
               in if mm < 1 \<or> 12 < mm then None
                  else Some (showNat (2000 + yy) @ ''-'' @ padStart 2 CHR ''0'' (showNat mm))))"

text \<open>
  \<^verbatim>\<open>inferMonth(paper)\<close>; the argument is \<^const>\<open>None\<close> when the caller found no
  metadata record (\<^verbatim>\<open>paper?.publicationDate\<close>, \<^verbatim>\<open>paper?.arxivUrl\<close>).
\<close>

definition inferMonth :: "paperInfo option \<Rightarrow> string option" where
  "inferMonth paper =
     (case Option.bind paper publicationDate of
        Some pub \<Rightarrow>
          if 7 \<le> length pub then Some (take 7 pub)
          else inferMonthFromArxivUrl (Option.bind paper arxivUrl)
      | None \<Rightarrow> inferMonthFromArxivUrl (Option.bind paper arxivUrl))"

section \<open>useVisualizationData.ts: the view queries\<close>

record bipartiteEdge =
  source :: string
  target :: string
  weight :: nat

record citationDataPoint =
  month :: string
  citations :: jsval

record series =
  psychTopic :: string
  psychCluster :: number
  series_data :: "citationDataPoint list"

text \<open>A row's \<^verbatim>\<open>citations\<close> is \<^verbatim>\<open>theoryData.citation\<close>: \<^const>\<open>None\<close> when that is undefined.\<close>

record theoryRow =
  row_subtopic :: string
  row_theory :: string
  row_citations :: "int option"
  isTopThree :: bool

record theoryDistribution =
  dist_topic :: string
  dist_citations :: nat

text \<open>
  What the queries take from the engine that runs them: the source text of a built-in
  function (\<^verbatim>\<open>String(f)\<close>, by its name), the text a template literal prints for the
  Number read from a digit string that is not below \<open>2\<^sup>5\<^sup>3\<close>, and the order in which
  \<^verbatim>\<open>Array.prototype.sort\<close> leaves the theory rows when the comparator is not
  consistent. The language fixes none of the three.
\<close>

record engine =
  functionText :: "string \<Rightarrow> string"
  numberText :: "string \<Rightarrow> string"
  inconsistentSort :: "(theoryRow \<Rightarrow> theoryRow \<Rightarrow> int) \<Rightarrow> theoryRow list \<Rightarrow> theoryRow list"

text \<open>The template literal \<^verbatim>\<open>`${n}`\<close> for a Number.\<close>

definition numberToString :: "engine \<Rightarrow> number \<Rightarrow> string" where
  "numberToString eng n = (case n of Safe k \<Rightarrow> showNat k | Unsafe ds \<Rightarrow> numberText eng ds)"

text \<open>
  \<^verbatim>\<open>a + b\<close> on counts: numbers add, and a string on either side makes the sum the
  concatenation of the two texts.
\<close>

definition jsAdd :: "jsval \<Rightarrow> jsval \<Rightarrow> jsval" where
  "jsAdd a b =
     (case (a, b) of
        (Num x, Num y) \<Rightarrow> Num (x + y)
      | (Num x, Str t) \<Rightarrow> Str (showNat x @ t)
      | (Str s, Num y) \<Rightarrow> Str (s @ showNat y)
      | (Str s, Str t) \<Rightarrow> Str (s @ t))"

text \<open>
  The inner loop \<^verbatim>\<open>paper.references.forEach(ref => { if (ids.has(ref.paperId)) count++ })\<close>.
  A \<^verbatim>\<open>Set\<close> built from a list is only asked \<^verbatim>\<open>has\<close>: it is the list's set.
\<close>

definition countRefs :: "string list \<Rightarrow> reference list \<Rightarrow> nat \<Rightarrow> nat" where
  "countRefs ids refs n =
     fold (\<lambda>r n. if ref_paperId r \<in> set ids then n + 1 else n) refs n"

text \<open>
  The loop over \<^verbatim>\<open>papers\<close> that \<^verbatim>\<open>getBipartiteEdges\<close> and \<^verbatim>\<open>getTheoryDistribution\<close>
  both run, starting from \<^verbatim>\<open>citationCount = 0\<close>.
\<close>

definition countCitations :: "string list \<Rightarrow> string list \<Rightarrow> paper list \<Rightarrow> nat" where
  "countCitations llmPaperIds targetPaperIds papers =
     fold (\<lambda>paper citationCount.
        if paper_paperId paper \<in> set llmPaperIds
        then (case paper_references paper of
                None \<Rightarrow> citationCount
              | Some refs \<Rightarrow> countRefs targetPaperIds refs citationCount)
        else citationCount) papers 0"

definition getBipartiteEdges :: "hookState \<Rightarrow> bipartiteEdge list" where
  "getBipartiteEdges st =
     (case filteredPapers st of
        None \<Rightarrow> []
      | Some papers \<Rightarrow>
          fold (\<lambda>(llmKey, llmCluster) edges.
            let llmPaperIds = map doc_paperId (cluster_docs llmCluster)
            in fold (\<lambda>(psychKey, psychCluster) edges.
                 let psychPaperIds = map doc_paperId (cluster_docs psychCluster);
                     citationCount = countCitations llmPaperIds psychPaperIds papers
                 in if 0 < citationCount
                    then edges @ [\<lparr>source = ''LLM-'' @ llmKey, target = ''Psych-'' @ psychKey,
                                   weight = citationCount\<rparr>]
                    else edges)
               (psychClusters st) edges)
            (llmClusters st) [])"

text \<open>
  \<^verbatim>\<open>monthCounts[month] || 0\<close> on the plain object \<^verbatim>\<open>monthCounts\<close>, as the operand of
  \<^verbatim>\<open>+\<close>: an own count (an empty string is falsy), else an inherited value (a built-in
  function adds as its source text, \<^verbatim>\<open>Object.prototype\<close> as \<^verbatim>\<open>[object Object]\<close>),
  else 0.
\<close>

definition monthVal :: "engine \<Rightarrow> (string \<times> jsval) list \<Rightarrow> string \<Rightarrow> jsval" where
  "monthVal eng monthCounts m =
     (case map_of monthCounts m of
        Some (Num c) \<Rightarrow> Num c
      | Some (Str s) \<Rightarrow> if s = [] then Num 0 else Str s
      | None \<Rightarrow>
          if m = ''__proto__'' then Str ''[object Object]''
          else if m \<in> set objectPrototypeNames then Str (functionText eng m)
          else Num 0)"

text \<open>
  \<^verbatim>\<open>monthCounts[month] = (monthCounts[month] || 0) + n\<close>. The object starts as \<^verbatim>\<open>{}\<close>,
  so an assignment to \<^verbatim>\<open>__proto__\<close> goes to the inherited setter, which ignores a
  value that is not an object: no entry is made.
\<close>

definition addMonth ::
    "engine \<Rightarrow> string \<Rightarrow> nat \<Rightarrow> (string \<times> jsval) list \<Rightarrow> (string \<times> jsval) list" where
  "addMonth eng m n monthCounts =
     (if m = ''__proto__'' then monthCounts
      else AList.update m (jsAdd (monthVal eng monthCounts m) (Num n)) monthCounts)"

text \<open>
  \<^verbatim>\<open>sortedMonths.map(month => { cumulative += monthCounts[month]; return {month, citations: cumulative} })\<close>
  over the entries in the order of \<^verbatim>\<open>sortedMonths\<close>: every month there is an own key,
  and \<^verbatim>\<open>monthCounts[month]\<close> is its entry's value.
\<close>

fun runningTotals :: "jsval \<Rightarrow> (string \<times> jsval) list \<Rightarrow> citationDataPoint list" where
  "runningTotals cumulative [] = []"
| "runningTotals cumulative ((m, v) # entries) =
     (let cumulative' = jsAdd cumulative v
      in \<lparr>month = m, citations = cumulative'\<rparr> # runningTotals cumulative' entries)"

text \<open>\<^verbatim>\<open>Object.keys(monthCounts).sort()\<close>, then the running sum from \<^verbatim>\<open>cumulative = 0\<close>.\<close>

definition cumulativeSeries :: "(string \<times> jsval) list \<Rightarrow> citationDataPoint list" where
  "cumulativeSeries monthCounts = runningTotals (Num 0) (sort_key fst monthCounts)"

text \<open>
  The paper-ID set of \<^verbatim>\<open>getCitationTimeSeries\<close>. The guard
  \<^verbatim>\<open>llmClusterId && llmClusters[llmClusterId]\<close> takes the topic's papers when the read
  is truthy and every topic's papers otherwise; an inherited value passes the guard and
  has no \<^verbatim>\<open>docs\<close>, so \<^verbatim>\<open>.docs.map\<close> throws.
\<close>

definition seriesPaperIds :: "hookState \<Rightarrow> string option \<Rightarrow> error + string list" where
  "seriesPaperIds st llmClusterId =
     (let allPaperIds = concat (map (\<lambda>c. map doc_paperId (cluster_docs c)) (map snd (llmClusters st)))
      in case llmClusterId of
           None \<Rightarrow> Inr allPaperIds
         | Some k \<Rightarrow>
             if k = [] then Inr allPaperIds
             else (case getProperty (llmClusters st) k of
                     Own c \<Rightarrow> Inr (map doc_paperId (cluster_docs c))
                   | Inherited \<Rightarrow> Inl TypeError
                   | Missing \<Rightarrow> Inr allPaperIds))"

text \<open>The loop of \<^verbatim>\<open>getCitationTimeSeries\<close> over \<^verbatim>\<open>papersInfoArray\<close>, from \<^verbatim>\<open>monthCounts = {}\<close>.\<close>

definition seriesMonthCounts ::
    "engine \<Rightarrow> string list \<Rightarrow> paperInfo list \<Rightarrow> (string \<times> jsval) list" where
  "seriesMonthCounts eng paperIds papersInfoArray =
     fold (\<lambda>paper monthCounts.
        if info_paperId paper = [] then monthCounts
        else if info_paperId paper \<notin> set paperIds then monthCounts
        else (case inferMonth (Some paper) of
                None \<Rightarrow> monthCounts
              | Some m \<Rightarrow> addMonth eng m 1 monthCounts))
       papersInfoArray []"

definition getCitationTimeSeries ::
    "engine \<Rightarrow> hookState \<Rightarrow> string option \<Rightarrow> error + citationDataPoint list" where
  "getCitationTimeSeries eng st llmClusterId =
     (case papersInfo st of
        None \<Rightarrow> Inr []
      | Some papersInfoArray \<Rightarrow>
          (case seriesPaperIds st llmClusterId of
             Inl e \<Rightarrow> Inl e
           | Inr paperIds \<Rightarrow>
               Inr (cumulativeSeries (seriesMonthCounts eng paperIds papersInfoArray))))"

text \<open>
  The loop of \<^verbatim>\<open>getMultiSeriesCitationData\<close> over \<^verbatim>\<open>papers\<close> for one Psychology
  topic, from \<^verbatim>\<open>monthCounts = {}\<close>. \<^verbatim>\<open>papersInfoMap\<close> is a \<^verbatim>\<open>Map\<close>.
\<close>

definition multiMonthCounts ::
    "engine \<Rightarrow> string list \<Rightarrow> (string \<times> paperInfo) list \<Rightarrow> string list \<Rightarrow> paper list \<Rightarrow>
     (string \<times> jsval) list" where
  "multiMonthCounts eng llmPaperIds papersInfoMap psychPaperIds papers =
     fold (\<lambda>paper monthCounts.
        if paper_paperId paper \<notin> set llmPaperIds then monthCounts
        else (case inferMonth (map_of papersInfoMap (paper_paperId paper)) of
           None \<Rightarrow> monthCounts
         | Some m \<Rightarrow>
             (case paper_references paper of
                None \<Rightarrow> monthCounts
              | Some refs \<Rightarrow>
                  let monthCitations = countRefs psychPaperIds refs 0
                  in if 0 < monthCitations
                     then addMonth eng m monthCitations monthCounts
                     else monthCounts)))
       papers []"

text \<open>
  \<^verbatim>\<open>const llmCluster = llmClusters[llmClusterId]; if (!llmCluster) return [];\<close> and then
  \<^verbatim>\<open>llmCluster.docs.map\<close>, which throws on an inherited value.
\<close>

definition getMultiSeriesCitationData ::
    "engine \<Rightarrow> (string \<Rightarrow> kind \<Rightarrow> string) \<Rightarrow> hookState \<Rightarrow> string \<Rightarrow> error + series list" where
  "getMultiSeriesCitationData eng label st llmClusterId =
     (case (filteredPapers st, papersInfo st) of
        (Some papers, Some papersInfoArray) \<Rightarrow>
          (case getProperty (llmClusters st) llmClusterId of
             Missing \<Rightarrow> Inr []
           | Inherited \<Rightarrow> Inl TypeError
           | Own llmCluster \<Rightarrow>
               let llmPaperIds = map doc_paperId (cluster_docs llmCluster);
                   papersInfoMap =
                     fold (\<lambda>p m. if info_paperId p \<noteq> [] then AList.update (info_paperId p) p m else m)
                       papersInfoArray []
               in Inr (fold (\<lambda>(psychKey, psychCluster) series.
                    let psychPaperIds = map doc_paperId (cluster_docs psychCluster);
                        monthCounts =
                          multiMonthCounts eng llmPaperIds papersInfoMap psychPaperIds papers;
                        data = cumulativeSeries monthCounts
                    in if data \<noteq> []
                       then series @ [\<lparr>psychTopic = label psychKey Psych,
                                        psychCluster = getClusterNumber psychKey,
                                        series_data = data\<rparr>]
                       else series)
                  (psychClusters st) []))
      | _ \<Rightarrow> Inr [])"

text \<open>\<^verbatim>\<open>theoryData.citation\<close> of what a property read gave.\<close>

definition citationOf :: "theoryData property \<Rightarrow> int option" where
  "citationOf theoryData = (case theoryData of Own d \<Rightarrow> Some (citation d) | _ \<Rightarrow> None)"

text \<open>
  The body of the loop over a subtopic's theory names in \<^verbatim>\<open>getTheoryTableData\<close>:
  the direct read \<^verbatim>\<open>clusterTheories[theoryName]\<close>; when it is falsy, the read of the
  canonical name stored under the normalized name
  (\<^verbatim>\<open>normalizedToCanonical.get(normalizedName) || theoryName\<close>); and the push when
  \<^verbatim>\<open>theoryData\<close> is truthy. An own entry and an inherited value are both truthy.
\<close>

definition pushTheoryRow ::
    "clusterTheories \<Rightarrow> (string \<times> string) list \<Rightarrow> string list \<Rightarrow> secondaryCluster \<Rightarrow>
     string \<Rightarrow> theoryRow list \<Rightarrow> theoryRow list" where
  "pushTheoryRow clusterTheories normalizedToCanonical topTheoryNames subCluster theoryName rows =
     (let (theoryData, canonicalName) =
            (if getProperty clusterTheories theoryName \<noteq> Missing
             then (getProperty clusterTheories theoryName, theoryName)
             else
               let normalizedName = normalizeTheoryName theoryName;
                   canonicalName =
                     (case map_of normalizedToCanonical normalizedName of
                        Some c \<Rightarrow> if c = [] then theoryName else c
                      | None \<Rightarrow> theoryName)
               in (getProperty clusterTheories canonicalName, canonicalName))
      in if theoryData \<noteq> Missing
         then rows @ [\<lparr>row_subtopic = sub_topic subCluster, row_theory = canonicalName,
                        row_citations = citationOf theoryData,
                        isTopThree = (canonicalName \<in> set topTheoryNames)\<rparr>]
         else rows)"

text \<open>
  \<^verbatim>\<open>normalizedToCanonical\<close>: every pool name stored under its normalized form, a later
  name replacing an earlier one with the same normalized form.
\<close>

definition normalizedToCanonicalMap :: "clusterTheories \<Rightarrow> (string \<times> string) list" where
  "normalizedToCanonicalMap clusterTheories =
     fold (\<lambda>name m. AList.update (normalizeTheoryName name) name m) (map fst clusterTheories) []"

text \<open>\<^verbatim>\<open>subtopicOrder\<close>: the index of each subtopic under its topic label.\<close>

definition subtopicOrderMap :: "secondaryClusterData \<Rightarrow> (string \<times> nat) list" where
  "subtopicOrderMap secondaryClusterData =
     fold (\<lambda>(index, subCluster) m. AList.update (sub_topic subCluster) index m)
       (enumerate 0 (map snd secondaryClusterData)) []"

text \<open>The two nested loops that fill \<^verbatim>\<open>rows\<close>, from \<^verbatim>\<open>rows = []\<close>.\<close>

definition theoryRows ::
    "clusterTheories \<Rightarrow> (string \<times> string) list \<Rightarrow> string list \<Rightarrow> secondaryClusterData \<Rightarrow>
     theoryRow list" where
  "theoryRows clusterTheories normalizedToCanonical topTheoryNames secondaryClusterData =
     fold (\<lambda>(_, subCluster) rows.
        fold (pushTheoryRow clusterTheories normalizedToCanonical topTheoryNames subCluster)
          (sub_theories subCluster) rows)
       secondaryClusterData []"

text \<open>\<^verbatim>\<open>subtopicOrder.get(subtopic) || 0\<close>\<close>

definition orderOf :: "(string \<times> nat) list \<Rightarrow> theoryRow \<Rightarrow> nat" where
  "orderOf subtopicOrder r =
     (case map_of subtopicOrder (row_subtopic r) of None \<Rightarrow> 0 | Some i \<Rightarrow> i)"

text \<open>
  The comparator of the final \<^verbatim>\<open>rows.sort\<close>: the difference of the subtopic indices
  when they differ, else \<^verbatim>\<open>b.citations - a.citations\<close>. With an undefined count the
  difference is \<^verbatim>\<open>NaN\<close>, which \<^verbatim>\<open>sort\<close> reads as 0.
\<close>

definition compareRows :: "(string \<times> nat) list \<Rightarrow> theoryRow \<Rightarrow> theoryRow \<Rightarrow> int" where
  "compareRows subtopicOrder a b =
     (let subtopicDiff = int (orderOf subtopicOrder a) - int (orderOf subtopicOrder b)
      in if subtopicDiff \<noteq> 0 then subtopicDiff
         else (case (row_citations b, row_citations a) of
                 (Some y, Some x) \<Rightarrow> y - x
               | _ \<Rightarrow> 0))"

text \<open>
  \<^verbatim>\<open>Array.prototype.sort\<close> with a comparator. The language fixes the result when the
  comparator is consistent on the elements (reflexive and symmetric where it gives 0,
  transitive for each of the three outcomes): the elements in ascending order, equal
  ones in their original order, which is what stable insertion gives. Otherwise the
  order is the engine's.
\<close>

definition consistent :: "('a \<Rightarrow> 'a \<Rightarrow> int) \<Rightarrow> 'a list \<Rightarrow> bool" where
  "consistent cmp xs =
     list_all (\<lambda>a. cmp a a = 0 \<and>
       list_all (\<lambda>b. (if cmp a b = 0 then cmp b a = 0 else True) \<and>
         list_all (\<lambda>c.
             (if cmp a b = 0 \<and> cmp b c = 0 then cmp a c = 0 else True)
           \<and> (if cmp a b < 0 \<and> cmp b c < 0 then cmp a c < 0 else True)
           \<and> (if 0 < cmp a b \<and> 0 < cmp b c then 0 < cmp a c else True)) xs) xs) xs"

fun insertBy :: "('a \<Rightarrow> 'a \<Rightarrow> int) \<Rightarrow> 'a \<Rightarrow> 'a list \<Rightarrow> 'a list" where
  "insertBy cmp x [] = [x]"
| "insertBy cmp x (y # ys) = (if cmp x y \<le> 0 then x # y # ys else y # insertBy cmp x ys)"

definition stableSort :: "('a \<Rightarrow> 'a \<Rightarrow> int) \<Rightarrow> 'a list \<Rightarrow> 'a list" where
  "stableSort cmp xs = foldr (insertBy cmp) xs []"

definition sortRows :: "engine \<Rightarrow> (theoryRow \<Rightarrow> theoryRow \<Rightarrow> int) \<Rightarrow> theoryRow list \<Rightarrow> theoryRow list" where
  "sortRows eng cmp rows =
     (if consistent cmp rows then stableSort cmp rows else inconsistentSort eng cmp rows)"

text \<open>
  \<^verbatim>\<open>getTheoryTableData\<close>. The key \<^verbatim>\<open>`Cluster ${clusterNum}`\<close> starts with
  \<^verbatim>\<open>Cluster\<close> and a space, so it is no inherited name: the two reads find own entries
  or nothing.
\<close>

definition clusterKeyOf :: "engine \<Rightarrow> string \<Rightarrow> string" where
  "clusterKeyOf eng psychClusterId = ''Cluster '' @ numberToString eng (getClusterNumber psychClusterId)"

definition getTheoryTableData :: "engine \<Rightarrow> hookState \<Rightarrow> string \<Rightarrow> theoryRow list" where
  "getTheoryTableData eng st psychClusterId =
     (let clusterKey = clusterKeyOf eng psychClusterId
      in case (map_of (secondaryClusters st) clusterKey, map_of (theoryPool st) clusterKey) of
           (Some secondaryClusterData, Some clusterTheories) \<Rightarrow>
             let topTheories = getTopTheories clusterTheories 3;
                 topTheoryNames = map top_name topTheories;
                 normalizedToCanonical = normalizedToCanonicalMap clusterTheories;
                 subtopicOrder = subtopicOrderMap secondaryClusterData;
                 rows = theoryRows clusterTheories normalizedToCanonical topTheoryNames
                          secondaryClusterData
             in sortRows eng (compareRows subtopicOrder) rows
         | _ \<Rightarrow> [])"

text \<open>
  \<^verbatim>\<open>for (const theories of Object.values(theoryPool)) if (theoryName in theories) { theoryData = theories[theoryName]; break }\<close>:
  the first pool that has the name, as an own entry or as an inherited one.
\<close>

fun findTheory :: "(string \<times> clusterTheories) list \<Rightarrow> string \<Rightarrow> theoryData property" where
  "findTheory [] theoryName = Missing"
| "findTheory ((k, theories) # rest) theoryName =
     (if getProperty theories theoryName \<noteq> Missing then getProperty theories theoryName
      else findTheory rest theoryName)"

text \<open>The loop over the theory's document titles that fills \<^verbatim>\<open>theoryPaperIds\<close>.\<close>

definition resolveTitles :: "(string \<times> string) list \<Rightarrow> string list \<Rightarrow> string list" where
  "resolveTitles titleMap docTitles =
     fold (\<lambda>docTitle theoryPaperIds.
        let normalizedTitle = trim (toLowerCase docTitle)
        in case map_of titleMap normalizedTitle of
             Some paperId \<Rightarrow>
               if paperId \<noteq> [] then List.insert paperId theoryPaperIds else theoryPaperIds
           | None \<Rightarrow> theoryPaperIds) docTitles []"

text \<open>
  \<^verbatim>\<open>getTheoryDistribution\<close>: the two guards, the search, \<^verbatim>\<open>if (!theoryData) return []\<close>,
  and \<^verbatim>\<open>theoryData.docs.forEach\<close>, which throws on an inherited value.
\<close>

definition getTheoryDistribution ::
    "(string \<Rightarrow> kind \<Rightarrow> string) \<Rightarrow> hookState \<Rightarrow> string \<Rightarrow> error + theoryDistribution list" where
  "getTheoryDistribution label st theoryName =
     (case filteredPapers st of
        None \<Rightarrow> Inr []
      | Some papers \<Rightarrow>
          if length (titleToPaperId st) = 0 then Inr []
          else (case findTheory (theoryPool st) theoryName of
             Missing \<Rightarrow> Inr []
           | Inherited \<Rightarrow> Inl TypeError
           | Own theoryData \<Rightarrow>
               let theoryPaperIds = resolveTitles (titleToPaperId st) (theory_docs theoryData);
                   distribution =
                     fold (\<lambda>(llmKey, llmCluster) distribution.
                        let llmPaperIds = map doc_paperId (cluster_docs llmCluster);
                            citationCount = countCitations llmPaperIds theoryPaperIds papers
                        in distribution @ [\<lparr>dist_topic = label llmKey LLM,
                                             dist_citations = citationCount\<rparr>])
                       (llmClusters st) []
               in Inr (sort_key (\<lambda>d. - int (dist_citations d)) distribution)))"

section \<open>Selection state of the dashboard page\<close>

text \<open>
  \<^verbatim>\<open>Dashboard.tsx\<close> keeps three pieces of React state, each \<^verbatim>\<open>string | null\<close>:
  the selected LLM node, the selected Psychology node and the selected theory.
  The handlers passed to the graph and to the theory table are the only writers:
  \<^verbatim>\<open>onLLMNodeClick\<close>, \<^verbatim>\<open>onPsychNodeClick\<close>, \<^verbatim>\<open>onTheoryClick\<close> and
  \<^verbatim>\<open>handleResetLineChart\<close>. Events are processed one at a time.
\<close>

record selection =
  selectedLLMNode :: "string option"
  selectedPsychNode :: "string option"
  selectedTheory :: "string option"

definition initialSelection :: selection where
  "initialSelection =
     \<lparr>selectedLLMNode = None, selectedPsychNode = None, selectedTheory = None\<rparr>"

text \<open>\<^verbatim>\<open>setSelectedLLMNode(selectedLLMNode === id ? null : id)\<close>\<close>

definition onLLMNodeClick :: "string \<Rightarrow> selection \<Rightarrow> selection" where
  "onLLMNodeClick ident s =
     s\<lparr>selectedLLMNode := (if selectedLLMNode s = Some ident then None else Some ident)\<rparr>"

text \<open>
  \<^verbatim>\<open>setSelectedPsychNode(selectedPsychNode === id ? null : id); setSelectedTheory(null);\<close>
\<close>

definition onPsychNodeClick :: "string \<Rightarrow> selection \<Rightarrow> selection" where
  "onPsychNodeClick ident s =
     s\<lparr>selectedPsychNode := (if selectedPsychNode s = Some ident then None else Some ident),
       selectedTheory := None\<rparr>"

text \<open>\<^verbatim>\<open>setSelectedTheory(selectedTheory === theory ? null : theory)\<close>\<close>

definition onTheoryClick :: "string \<Rightarrow> selection \<Rightarrow> selection" where
  "onTheoryClick thy s =
     s\<lparr>selectedTheory := (if selectedTheory s = Some thy then None else Some thy)\<rparr>"

definition handleResetLineChart :: "selection \<Rightarrow> selection" where
  "handleResetLineChart s = s\<lparr>selectedLLMNode := None\<rparr>"

datatype event =
  LLMNodeClick string
  | PsychNodeClick string
  | TheoryClick string
  | ResetLineChart

fun step :: "event \<Rightarrow> selection \<Rightarrow> selection" where
  "step (LLMNodeClick ident) s = onLLMNodeClick ident s"
| "step (PsychNodeClick ident) s = onPsychNodeClick ident s"
| "step (TheoryClick thy) s = onTheoryClick thy s"
| "step ResetLineChart s = handleResetLineChart s"

text \<open>The states the page can be in: whatever a sequence of events leaves.\<close>

definition run :: "event list \<Rightarrow> selection" where
  "run evs = fold step evs initialSelection"


section \<open>The specification's notions\<close>

text \<open>
  The citation-edge relation of the specification, derived from the reference lists:
  one (citing paper ID, referenced paper ID) pair per entry of a paper's
  \<^verbatim>\<open>references\<close>, in data order. A pair stands in the list once for each time the
  data repeat it.
\<close>

definition citationEdges :: "paper list \<Rightarrow> (string \<times> string) list" where
  "citationEdges papers =
     concat (map (\<lambda>p. case paper_references p of
                          None \<Rightarrow> []
                        | Some refs \<Rightarrow> map (\<lambda>r. (paper_paperId p, ref_paperId r)) refs) papers)"

text \<open>
  The citation pairs that cross from an LLM topic to a Psychology topic: the citing
  paper's ID is in the one's paper-ID set, the referenced paper's ID in the other's.
\<close>

definition crossing :: "cluster \<Rightarrow> cluster \<Rightarrow> paper list \<Rightarrow> (string \<times> string) list" where
  "crossing lc pc papers =
     filter (\<lambda>(p, q). p \<in> doc_paperId ` set (cluster_docs lc)
                      \<and> q \<in> doc_paperId ` set (cluster_docs pc))
       (citationEdges papers)"

text \<open>
  The specification's edge weight: the cardinality of the set of crossing pairs.
\<close>

definition edgeWeight :: "cluster \<Rightarrow> cluster \<Rightarrow> paper list \<Rightarrow> nat" where
  "edgeWeight lc pc papers = card (set (crossing lc pc papers))"

text \<open>
  The number of reference-list entries that cross: a pair counts once for each of its
  occurrences.
\<close>

definition entryCount :: "cluster \<Rightarrow> cluster \<Rightarrow> paper list \<Rightarrow> nat" where
  "entryCount lc pc papers = length (crossing lc pc papers)"

text \<open>
  The resolved months of the papers a time series counts, one entry per counted
  paper: the metadata records with a paper ID in the given paper-ID set whose month
  resolves.
\<close>

definition resolvedMonths :: "string list \<Rightarrow> paperInfo list \<Rightarrow> string list" where
  "resolvedMonths paperIds papersInfoArray =
     List.map_filter
       (\<lambda>p. if info_paperId p \<noteq> [] \<and> info_paperId p \<in> set paperIds
            then inferMonth (Some p) else None)
       papersInfoArray"

text \<open>
  Position \<open>i\<close> comes before position \<open>j\<close> in the stable order of a key \<open>g\<close>: a
  smaller key, or the same key and an earlier position.
\<close>

definition before :: "(nat \<Rightarrow> 'k::linorder) \<Rightarrow> nat \<Rightarrow> nat \<Rightarrow> bool" where
  "before g i j \<longleftrightarrow> g i < g j \<or> (g i = g j \<and> i < j)"



text \<open>
  Theory \<open>j\<close> of a pool outranks theory \<open>i\<close>: more citations, or as many and earlier
  in the pool's enumeration.
\<close>

definition outranks :: "clusterTheories \<Rightarrow> nat \<Rightarrow> nat \<Rightarrow> bool" where
  "outranks ct j i \<longleftrightarrow>
     citation (snd (ct ! i)) < citation (snd (ct ! j))
     \<or> (citation (snd (ct ! j)) = citation (snd (ct ! i)) \<and> j < i)"

text \<open>
  The specification's name resolution against a topic's pool: the exact name when the
  pool has it, else the pool name with the same normalized form (the last one in pool
  order when several have it), else nothing.
\<close>

definition resolveTheoryName_spec :: "clusterTheories \<Rightarrow> string \<Rightarrow> string option" where
  "resolveTheoryName_spec ct theoryName =
     (if theoryName \<in> fst ` set ct then Some theoryName
      else (case filter (\<lambda>c. normalizeTheoryName c = normalizeTheoryName theoryName) (map fst ct) of
              [] \<Rightarrow> None
            | c # cs \<Rightarrow> Some (last (c # cs))))"

section \<open>Example data\<close>

text \<open>An engine: the function text of V8, digits printed as read, rows left as they are.\<close>

definition exEngine :: engine where
  "exEngine =
     \<lparr>functionText = (\<lambda>name. ''function '' @ name @ ''() { [native code] }''),
      numberText = (\<lambda>ds. ds),
      inconsistentSort = (\<lambda>cmp rows. rows)\<rparr>"

definition exCluster :: "string list \<Rightarrow> cluster" where
  "exCluster ids =
     \<lparr>cluster_size = length ids, cluster_topic = ''topic'',
      cluster_docs = map (\<lambda>i. \<lparr>doc_title = ''title'', doc_paperId = i, doc_abstract = None\<rparr>) ids\<rparr>"

definition exPapers :: "paper list" where
  "exPapers =
     [\<lparr>paper_paperId = ''a'',
       paper_references = Some [\<lparr>ref_paperId = ''x''\<rparr>, \<lparr>ref_paperId = ''y''\<rparr>, \<lparr>ref_paperId = ''q''\<rparr>]\<rparr>,
      \<lparr>paper_paperId = ''b'', paper_references = Some [\<lparr>ref_paperId = ''x''\<rparr>]\<rparr>,
      \<lparr>paper_paperId = ''c'', paper_references = None\<rparr>]"

definition exInfos :: "paperInfo list" where
  "exInfos =
     [\<lparr>info_paperId = ''a'', publicationDate = Some ''2023-10-01'', arxivUrl = None\<rparr>,
      \<lparr>info_paperId = ''b'', publicationDate = None,
       arxivUrl = Some ''http://arxiv.org/abs/2305.12345''\<rparr>,
      \<lparr>info_paperId = ''c'', publicationDate = None,
       arxivUrl = Some ''http://arxiv.org/abs/2313.12345''\<rparr>]"

definition exPool :: clusterTheories where
  "exPool =
     [(''A'', \<lparr>citation = 10, theory_docs = ['' X Title '', ''Unknown title'']\<rparr>),
      (''B'', \<lparr>citation = 10, theory_docs = []\<rparr>),
      (''Schema Theory'', \<lparr>citation = 5, theory_docs = []\<rparr>),
      (''D'', \<lparr>citation = 1, theory_docs = []\<rparr>)]"

definition exSubtopics :: secondaryClusterData where
  "exSubtopics =
     [(''Cluster 0'', \<lparr>sub_size = 1, sub_topic = ''S0'',
          sub_theories = [''D'', ''Mental Schema Theories'', ''Unlisted''], sub_docs = []\<rparr>),
      (''Cluster 1'', \<lparr>sub_size = 1, sub_topic = ''S1'',
          sub_theories = [''B'', ''A''], sub_docs = []\<rparr>)]"

definition exState :: hookState where
  "exState =
     \<lparr>llmClusters = [(''Cluster 0'', exCluster [''a'', ''b'']), (''Cluster 1'', exCluster [''c''])],
      psychClusters = [(''Cluster 0'', exCluster [''x'']), (''Cluster 1'', exCluster [''y'', ''z''])],
      theoryPool = [(''Cluster 0'', exPool)],
      secondaryClusters = [(''Cluster 0'', exSubtopics)],
      papersInfo = Some exInfos,
      filteredPapers = Some exPapers,
      titleToPaperId = buildTitleMap [\<lparr>ref_title = ''X title'', refInfo_paperId = ''x''\<rparr>]\<rparr>"

definition exShortDate :: paperInfo where
  "exShortDate =
     \<lparr>info_paperId = ''a'', publicationDate = Some ''2023'',
      arxivUrl = Some ''https://arxiv.org/abs/2310.01234''\<rparr>"

definition exLabel :: "string \<Rightarrow> kind \<Rightarrow> string" where
  "exLabel k kd = (case kd of LLM \<Rightarrow> ''LLM topic '' @ k | Psych \<Rightarrow> ''Psychology topic '' @ k)"


definition exUntitledRefs :: "refInfo list" where
  "exUntitledRefs = [\<lparr>ref_title = '''', refInfo_paperId = ''x''\<rparr>,
                     \<lparr>ref_title = ''X title'', refInfo_paperId = ''''\<rparr>]"

definition exTies :: clusterTheories where
  "exTies =
     [(''A'', \<lparr>citation = 10, theory_docs = []\<rparr>),
      (''B'', \<lparr>citation = 10, theory_docs = []\<rparr>),
      (''C'', \<lparr>citation = 5, theory_docs = []\<rparr>),
      (''D'', \<lparr>citation = 1, theory_docs = []\<rparr>)]"

definition exSubtopic :: "string list \<Rightarrow> secondaryClusterData" where
  "exSubtopic names =
     [(''Cluster 0'', \<lparr>sub_size = length names, sub_topic = ''S0'',
         sub_theories = names, sub_docs = []\<rparr>)]"

definition exTable :: "clusterTheories \<Rightarrow> string list \<Rightarrow> hookState" where
  "exTable pool names =
     exState\<lparr>theoryPool := [(''Cluster 0'', pool)],
       secondaryClusters := [(''Cluster 0'', exSubtopic names)]\<rparr>"

text \<open>The paper \<^verbatim>\<open>a\<close> lists the paper \<^verbatim>\<open>x\<close> twice.\<close>

definition exTwice :: "paper list" where
  "exTwice =
     [\<lparr>paper_paperId = ''a'',
       paper_references = Some [\<lparr>ref_paperId = ''x''\<rparr>, \<lparr>ref_paperId = ''x''\<rparr>]\<rparr>]"

text \<open>The paper \<^verbatim>\<open>b\<close> has a publication date that starts with \<^verbatim>\<open>valueOf\<close>.\<close>

definition exValueOf :: hookState where
  "exValueOf =
     exState\<lparr>papersInfo := Some
       [\<lparr>info_paperId = ''a'', publicationDate = Some ''2023-05-01'', arxivUrl = None\<rparr>,
        \<lparr>info_paperId = ''b'', publicationDate = Some ''valueOf-01'', arxivUrl = None\<rparr>]\<rparr>"

text \<open>A pool whose only theory has the empty name.\<close>

definition exNameless :: clusterTheories where
  "exNameless = [('''', \<lparr>citation = 7, theory_docs = []\<rparr>)]"

definition exCapital :: clusterTheories where
  "exCapital = [(''Constructor'', \<lparr>citation = 5, theory_docs = []\<rparr>)]"

section \<open>Selection transitions\<close>

text \<open>
  Claim C8. In every selection state (so in every reachable one, \<open>run evs\<close>):
  clicking the selected node of an axis clears that axis; clicking an LLM node twice
  from the idle state returns to the idle state (in general a second click undoes the
  first: the node ends selected only if it was selected before); a click on a
  Psychology node clears the selected theory; and the two axes are orthogonal: an LLM
  click or a line-chart reset leaves the Psychology node and the theory as they were,
  a Psychology or theory click leaves the LLM node as it was.
\<close>

theorem selection_toggle_orthogonal:
  "selectedLLMNode (onLLMNodeClick a (s\<lparr>selectedLLMNode := Some a\<rparr>)) = None
   \<and> selectedPsychNode (onPsychNodeClick b (s\<lparr>selectedPsychNode := Some b\<rparr>)) = None
   \<and> selectedTheory (onTheoryClick t (s\<lparr>selectedTheory := Some t\<rparr>)) = None
   \<and> onLLMNodeClick a (onLLMNodeClick a initialSelection) = initialSelection
   \<and> selectedLLMNode (onLLMNodeClick a (onLLMNodeClick a s)) =
       (if selectedLLMNode s = Some a then Some a else None)
   \<and> selectedTheory (onPsychNodeClick b s) = None
   \<and> selectedPsychNode (onLLMNodeClick a s) = selectedPsychNode s
   \<and> selectedTheory (onLLMNodeClick a s) = selectedTheory s
   \<and> selectedPsychNode (handleResetLineChart s) = selectedPsychNode s
   \<and> selectedTheory (handleResetLineChart s) = selectedTheory s
   \<and> selectedLLMNode (onPsychNodeClick b s) = selectedLLMNode s
   \<and> selectedLLMNode (onTheoryClick t s) = selectedLLMNode s
   \<and> selectedPsychNode (onTheoryClick t s) = selectedPsychNode s
   \<and> selectedPsychNode (step (LLMNodeClick a) (run evs)) = selectedPsychNode (run evs)
   \<and> selectedTheory (step (LLMNodeClick a) (run evs)) = selectedTheory (run evs)
   \<and> selectedLLMNode (step (PsychNodeClick b) (run evs)) = selectedLLMNode (run evs)
   \<and> selectedLLMNode (step (TheoryClick t) (run evs)) = selectedLLMNode (run evs)"
  by (simp add: onLLMNodeClick_def onPsychNodeClick_def onTheoryClick_def
      handleResetLineChart_def initialSelection_def)


section \<open>Sorting\<close>

lemma insort_key_map:
  "insort_key f (g i) (map g js) = map g (insort_key (\<lambda>j. f (g j)) i js)"
  by (induction js) auto

lemma sort_key_map:
  "sort_key f (map g js) = map g (sort_key (\<lambda>j. f (g j)) js)"
  by (induction js) (auto simp: insort_key_map)


section \<open>Bipartite edges\<close>

lemma countRefs_eq: "countRefs ids refs n = n + length (filter (\<lambda>r. ref_paperId r \<in> set ids) refs)"
  unfolding countRefs_def by (induction refs arbitrary: n) auto

lemma countCitations_fold:
  "fold (\<lambda>paper citationCount.
        if paper_paperId paper \<in> set L
        then (case paper_references paper of
                None \<Rightarrow> citationCount
              | Some refs \<Rightarrow> countRefs T refs citationCount)
        else citationCount) papers n
   = n + length (filter (\<lambda>(p, q). p \<in> set L \<and> q \<in> set T) (citationEdges papers))"
proof (induction papers arbitrary: n)
  case Nil
  show ?case by (simp add: citationEdges_def)
next
  case (Cons a papers)
  have step: "length (filter (\<lambda>(p, q). p \<in> set L \<and> q \<in> set T) (citationEdges (a # papers)))
      = (if paper_paperId a \<in> set L
         then (case paper_references a of None \<Rightarrow> 0
               | Some refs \<Rightarrow> length (filter (\<lambda>r. ref_paperId r \<in> set T) refs))
         else 0)
        + length (filter (\<lambda>(p, q). p \<in> set L \<and> q \<in> set T) (citationEdges papers))"
    by (simp add: citationEdges_def filter_map comp_def split: option.split)
  show ?case
    by (simp only: fold_simps Cons.IH step) (simp add: countRefs_eq split: option.split)
qed

lemma countCitations_eq:
  "countCitations L T papers
   = length (filter (\<lambda>(p, q). p \<in> set L \<and> q \<in> set T) (citationEdges papers))"
  unfolding countCitations_def by (simp add: countCitations_fold)

lemma countCitations_entryCount:
  "countCitations (map doc_paperId (cluster_docs lc)) (map doc_paperId (cluster_docs pc)) papers
   = entryCount lc pc papers"
  by (simp add: countCitations_eq entryCount_def crossing_def)

lemma psych_fold_edges:
  "fold (\<lambda>(psychKey, psychCluster) edges.
           let psychPaperIds = map doc_paperId (cluster_docs psychCluster);
               citationCount = countCitations (map doc_paperId (cluster_docs lc)) psychPaperIds papers
           in if 0 < citationCount
              then edges @ [\<lparr>source = ''LLM-'' @ lk, target = ''Psych-'' @ psychKey,
                             weight = citationCount\<rparr>]
              else edges) ps acc
   = acc @ concat (map (\<lambda>(pk, pc).
        if 1 \<le> entryCount lc pc papers
        then [\<lparr>source = ''LLM-'' @ lk, target = ''Psych-'' @ pk, weight = entryCount lc pc papers\<rparr>]
        else []) ps)"
  by (induction ps arbitrary: acc)
     (auto simp: Let_def countCitations_entryCount Suc_le_eq)

lemma getBipartiteEdges_eq:
  assumes "filteredPapers st = Some papers"
  shows "getBipartiteEdges st =
     concat (map (\<lambda>(lk, lc). concat (map (\<lambda>(pk, pc).
        if 1 \<le> entryCount lc pc papers
        then [\<lparr>source = ''LLM-'' @ lk, target = ''Psych-'' @ pk, weight = entryCount lc pc papers\<rparr>]
        else []) (psychClusters st))) (llmClusters st))"
proof -
  have "fold (\<lambda>(llmKey, llmCluster) edges.
            let llmPaperIds = map doc_paperId (cluster_docs llmCluster)
            in fold (\<lambda>(psychKey, psychCluster) edges.
                 let psychPaperIds = map doc_paperId (cluster_docs psychCluster);
                     citationCount = countCitations llmPaperIds psychPaperIds papers
                 in if 0 < citationCount
                    then edges @ [\<lparr>source = ''LLM-'' @ llmKey, target = ''Psych-'' @ psychKey,
                                   weight = citationCount\<rparr>]
                    else edges)
               ps edges) ls acc
     = acc @ concat (map (\<lambda>(lk, lc). concat (map (\<lambda>(pk, pc).
        if 1 \<le> entryCount lc pc papers
        then [\<lparr>source = ''LLM-'' @ lk, target = ''Psych-'' @ pk, weight = entryCount lc pc papers\<rparr>]
        else []) ps)) ls)" for ps ls acc
  proof (induction ls arbitrary: acc)
    case Nil
    show ?case by simp
  next
    case (Cons a ls)
    obtain lk lc where a: "a = (lk, lc)" by (cases a)
    show ?case
      unfolding a by (simp only: fold_simps Cons.IH prod.case Let_def[of "map doc_paperId (cluster_docs lc)"] psych_fold_edges) simp
  qed
  then show ?thesis
    unfolding getBipartiteEdges_def by (simp add: assms)
qed

lemma edgeWeight_le: "edgeWeight lc pc papers \<le> entryCount lc pc papers"
  unfolding edgeWeight_def entryCount_def by (rule card_length)

lemma edgeWeight_distinct:
  assumes "distinct (citationEdges papers)"
  shows "entryCount lc pc papers = edgeWeight lc pc papers"
proof -
  have "distinct (crossing lc pc papers)"
    using assms by (simp add: crossing_def)
  then show ?thesis
    by (simp add: edgeWeight_def entryCount_def distinct_card)
qed

text \<open>
  Claim C1, as amended. With \<^verbatim>\<open>filteredPapers\<close> loaded, \<^verbatim>\<open>getBipartiteEdges\<close> emits, for
  the pairs of an LLM topic and a Psychology topic in enumeration order, one edge per
  pair whose weight is at least 1, and that weight is the number of reference-list
  entries that cross from the one topic's paper-ID set to the other's: a (citing
  paper, referenced paper) pair counts once for each time the data list it. A pair of
  topics with no such entry gets no edge, so no edge has a weight below 1. The number of
  distinct crossing pairs is never more than the weight, and it is the weight when no
  citation pair occurs twice in the data.
\<close>

theorem bipartite_edge_weights:
  assumes "filteredPapers st = Some papers"
  shows "getBipartiteEdges st =
           concat (map (\<lambda>(lk, lc). concat (map (\<lambda>(pk, pc).
             if 1 \<le> entryCount lc pc papers
             then [\<lparr>source = ''LLM-'' @ lk, target = ''Psych-'' @ pk,
                    weight = entryCount lc pc papers\<rparr>]
             else []) (psychClusters st))) (llmClusters st))
     \<and> (\<forall>e \<in> set (getBipartiteEdges st). 1 \<le> weight e)
     \<and> (\<forall>lc pc. edgeWeight lc pc papers \<le> entryCount lc pc papers)
     \<and> (distinct (citationEdges papers) \<longrightarrow>
          (\<forall>lc pc. entryCount lc pc papers = edgeWeight lc pc papers))"
proof (intro conjI)
  show eq: "getBipartiteEdges st =
           concat (map (\<lambda>(lk, lc). concat (map (\<lambda>(pk, pc).
             if 1 \<le> entryCount lc pc papers
             then [\<lparr>source = ''LLM-'' @ lk, target = ''Psych-'' @ pk,
                    weight = entryCount lc pc papers\<rparr>]
             else []) (psychClusters st))) (llmClusters st))"
    by (rule getBipartiteEdges_eq[OF assms])
  show "\<forall>e \<in> set (getBipartiteEdges st). 1 \<le> weight e"
    unfolding eq by (auto split: if_splits)
  show "\<forall>lc pc. edgeWeight lc pc papers \<le> entryCount lc pc papers"
    using edgeWeight_le by blast
  show "distinct (citationEdges papers) \<longrightarrow>
          (\<forall>lc pc. entryCount lc pc papers = edgeWeight lc pc papers)"
    using edgeWeight_distinct by blast
qed

lemma exPapers_edges:
  "citationEdges exPapers = [(''a'', ''x''), (''a'', ''y''), (''a'', ''q''), (''b'', ''x'')]"
  by (simp add: citationEdges_def exPapers_def)

theorem bipartite_edge_weights_witness:
  "filteredPapers exState = Some exPapers
   \<and> distinct (citationEdges exPapers)
   \<and> getBipartiteEdges exState =
       [\<lparr>source = ''LLM-Cluster 0'', target = ''Psych-Cluster 0'', weight = 2\<rparr>,
        \<lparr>source = ''LLM-Cluster 0'', target = ''Psych-Cluster 1'', weight = 1\<rparr>]
   \<and> edgeWeight (exCluster [''a'', ''b'']) (exCluster [''x'']) exPapers = 2
   \<and> set (crossing (exCluster [''a'', ''b'']) (exCluster [''x'']) exPapers)
       = {(''a'', ''x''), (''b'', ''x'')}"
proof -
  have h: "filteredPapers exState = Some exPapers" by (simp add: exState_def)
  have d: "distinct (citationEdges exPapers)" by (simp add: exPapers_edges)
  have c: "crossing (exCluster [''a'', ''b'']) (exCluster [''x'']) exPapers
           = [(''a'', ''x''), (''b'', ''x'')]"
    by (simp add: crossing_def exPapers_edges exCluster_def)
  have w: "entryCount (exCluster [''a'', ''b'']) (exCluster [''x'']) exPapers = 2"
       "entryCount (exCluster [''a'', ''b'']) (exCluster [''y'', ''z'']) exPapers = 1"
       "entryCount (exCluster [''c'']) (exCluster [''x'']) exPapers = 0"
       "entryCount (exCluster [''c'']) (exCluster [''y'', ''z'']) exPapers = 0"
    by (simp_all add: entryCount_def crossing_def exPapers_edges exCluster_def)
  from bipartite_edge_weights[OF h] d
  have "getBipartiteEdges exState =
           concat (map (\<lambda>(lk, lc). concat (map (\<lambda>(pk, pc).
             if 1 \<le> entryCount lc pc exPapers
             then [\<lparr>source = ''LLM-'' @ lk, target = ''Psych-'' @ pk,
                    weight = entryCount lc pc exPapers\<rparr>]
             else []) (psychClusters exState))) (llmClusters exState))"
    and e: "entryCount (exCluster [''a'', ''b'']) (exCluster [''x'']) exPapers
           = edgeWeight (exCluster [''a'', ''b'']) (exCluster [''x'']) exPapers"
    by simp_all
  then have "getBipartiteEdges exState =
       [\<lparr>source = ''LLM-Cluster 0'', target = ''Psych-Cluster 0'', weight = 2\<rparr>,
        \<lparr>source = ''LLM-Cluster 0'', target = ''Psych-Cluster 1'', weight = 1\<rparr>]"
    by (simp add: exState_def w)
  with h d e w c show ?thesis by simp
qed

text \<open>
  When the paper \<^verbatim>\<open>a\<close> of the LLM topic lists the paper \<^verbatim>\<open>x\<close> of the Psychology topic
  twice, one pair crosses, and the edge has weight 2.
\<close>

theorem repeated_reference_counterexample:
  "citationEdges exTwice = [(''a'', ''x''), (''a'', ''x'')]
   \<and> set (crossing (exCluster [''a'', ''b'']) (exCluster [''x'']) exTwice) = {(''a'', ''x'')}
   \<and> edgeWeight (exCluster [''a'', ''b'']) (exCluster [''x'']) exTwice = 1
   \<and> getBipartiteEdges (exState\<lparr>filteredPapers := Some exTwice\<rparr>) =
       [\<lparr>source = ''LLM-Cluster 0'', target = ''Psych-Cluster 0'', weight = 2\<rparr>]"
proof -
  have e: "citationEdges exTwice = [(''a'', ''x''), (''a'', ''x'')]"
    by (simp add: citationEdges_def exTwice_def)
  have c: "crossing (exCluster [''a'', ''b'']) (exCluster [''x'']) exTwice
           = [(''a'', ''x''), (''a'', ''x'')]"
    by (simp add: crossing_def e exCluster_def)
  have w: "edgeWeight (exCluster [''a'', ''b'']) (exCluster [''x'']) exTwice = 1"
    by (simp add: edgeWeight_def c)
  have g: "getBipartiteEdges (exState\<lparr>filteredPapers := Some exTwice\<rparr>) =
       [\<lparr>source = ''LLM-Cluster 0'', target = ''Psych-Cluster 0'', weight = 2\<rparr>]"
    by code_simp
  from e c w g show ?thesis by simp
qed
section \<open>Month inference\<close>

lemma isDigit_iff: "isDigit c \<longleftrightarrow> (\<exists>d < 10. c = digitChar d)"
proof -
  have len: "length ''0123456789'' = 10" by simp
  show ?thesis
    unfolding isDigit_def digitChar_def in_set_conv_nth len by blast
qed

lemma digit_cases: "d < 10 \<Longrightarrow> d \<in> {0, 1, 2, 3, 4, 5, 6, 7, 8, 9::nat}"
  by auto

lemma digitVal_digitChar: "d < 10 \<Longrightarrow> digitVal (digitChar d) = d"
  using digit_cases[of d] by (auto simp: digitVal_def digitChar_def)

lemma digitChar_digitVal: "isDigit c \<Longrightarrow> digitChar (digitVal c) = c"
  by (auto simp: isDigit_iff digitVal_digitChar)

lemma digitVal_less: "isDigit c \<Longrightarrow> digitVal c < 10"
  by (auto simp: isDigit_iff digitVal_digitChar)

lemma parseInt_two: "parseInt [a, b] = 10 * digitVal a + digitVal b"
  by (simp add: parseInt_def)

lemma showNat_one: "n < 10 \<Longrightarrow> showNat n = [digitChar n]"
  by (subst showNat.simps) simp

lemma showNat_two: "a < 10 \<Longrightarrow> b < 10 \<Longrightarrow> 0 < a \<Longrightarrow> showNat (10 * a + b) = [digitChar a, digitChar b]"
  by (subst showNat.simps) (simp add: showNat_one)

lemma showNat_two_gen: "0 < q \<Longrightarrow> b < 10 \<Longrightarrow> showNat (10 * q + b) = showNat q @ [digitChar b]"
  by (subst showNat.simps) simp

lemma showNat_year:
  assumes "a < 10" "b < 10"
  shows "showNat (2000 + (10 * a + b)) = ''20'' @ [digitChar a, digitChar b]"
proof -
  have s20: "showNat 20 = [digitChar 2, digitChar 0]"
    using showNat_two[of 2 0] by simp
  have e1: "200 + a = 10 * 20 + a" and e2: "2000 + (10 * a + b) = 10 * (200 + a) + b"
    by simp_all
  have "showNat (10 * 20 + a) = showNat 20 @ [digitChar a]"
    by (rule showNat_two_gen) (use assms in simp_all)
  moreover have "showNat (10 * (200 + a) + b) = showNat (200 + a) @ [digitChar b]"
    by (rule showNat_two_gen) (use assms in simp_all)
  ultimately have "showNat (2000 + (10 * a + b)) = (showNat 20 @ [digitChar a]) @ [digitChar b]"
    by (simp only: e1 e2)
  then show ?thesis
    by (simp add: s20 digitChar_def)
qed

lemma month_two_digits:
  assumes "a < 10" "b < 10" "1 \<le> 10 * a + b"
  shows "padStart 2 CHR ''0'' (showNat (10 * a + b))
         = (if a = 0 then [CHR ''0'', digitChar b] else [digitChar a, digitChar b])"
  using assms by (auto simp: padStart_def showNat_one showNat_two)

lemma searchArxiv_skip:
  "(\<forall>i < length pre. matchArxivAt (drop i (pre @ s)) = None)
   \<Longrightarrow> searchArxiv (pre @ s) = searchArxiv s"
proof (induction pre)
  case Nil
  show ?case by simp
next
  case (Cons c pre)
  have 0: "matchArxivAt ((c # pre) @ s) = None"
    using Cons.prems by (metis drop0 length_greater_0_conv list.distinct(1))
  have "\<forall>i < length pre. matchArxivAt (drop i (pre @ s)) = None"
  proof (intro allI impI)
    fix i assume "i < length pre"
    then have "Suc i < length (c # pre)" by simp
    from Cons.prems[rule_format, OF this] show "matchArxivAt (drop i (pre @ s)) = None" by simp
  qed
  with Cons.IH 0 show ?case by simp
qed

lemma searchArxiv_none:
  "(\<forall>i \<le> length s. matchArxivAt (drop i s) = None) \<Longrightarrow> searchArxiv s = None"
  using searchArxiv_skip[of s "[]"] by simp

lemma searchArxiv_hit: "matchArxivAt s = Some g \<Longrightarrow> searchArxiv s = Some g"
  by (cases s) (auto simp: matchArxivAt_def)

lemma matchArxivAt_form:
  assumes lit: "toLowerCase lit = ''arxiv.org/abs/''"
    and dig: "isDigit y1" "isDigit y2" "isDigit m1" "isDigit m2"
    and ds: "list_all isDigit ds" "4 \<le> length ds"
  shows "matchArxivAt (lit @ [y1, y2, m1, m2] @ ''.'' @ ds @ rest) = Some [y1, y2, m1, m2]"
proof -
  have len: "length lit = 14"
    using arg_cong[OF lit, of length] by (simp add: toLowerCase_def)
  have tw: "4 \<le> length (takeWhile isDigit (ds @ rest))"
    using ds by (simp add: takeWhile_append2 list_all_iff)
  show ?thesis
    unfolding matchArxivAt_def using len lit dig tw by (simp add: Let_def)
qed

lemma inferMonthFromArxivUrl_form:
  assumes lit: "toLowerCase lit = ''arxiv.org/abs/''"
    and dig: "isDigit y1" "isDigit y2" "isDigit m1" "isDigit m2"
    and ds: "list_all isDigit ds" "4 \<le> length ds"
    and first: "\<forall>i < length pre.
        matchArxivAt (drop i (pre @ lit @ [y1, y2, m1, m2] @ ''.'' @ ds @ rest)) = None"
  shows "inferMonthFromArxivUrl (Some (pre @ lit @ [y1, y2, m1, m2] @ ''.'' @ ds @ rest))
         = (if 1 \<le> 10 * digitVal m1 + digitVal m2 \<and> 10 * digitVal m1 + digitVal m2 \<le> 12
            then Some (''20'' @ [y1, y2] @ ''-'' @ [m1, m2]) else None)"
proof -
  let ?s = "lit @ [y1, y2, m1, m2] @ ''.'' @ ds @ rest"
  have "searchArxiv (pre @ ?s) = searchArxiv ?s"
    using first by (rule searchArxiv_skip)
  also have "\<dots> = Some [y1, y2, m1, m2]"
    by (rule searchArxiv_hit) (rule matchArxivAt_form[OF lit dig ds])
  finally have hit: "searchArxiv (pre @ ?s) = Some [y1, y2, m1, m2]" .
  have ne: "pre @ ?s \<noteq> []" by simp
  have year: "showNat (2000 + (10 * digitVal y1 + digitVal y2)) = ''20'' @ [y1, y2]"
    using dig by (simp add: showNat_year digitVal_less digitChar_digitVal)
  have zero: "digitVal m1 = 0 \<Longrightarrow> m1 = CHR ''0''"
    using digitChar_digitVal[OF dig(3)] by (simp add: digitChar_def)
  have mon: "1 \<le> 10 * digitVal m1 + digitVal m2 \<Longrightarrow>
     padStart 2 CHR ''0'' (showNat (10 * digitVal m1 + digitVal m2)) = [m1, m2]"
    using dig zero by (auto simp: month_two_digits digitVal_less digitChar_digitVal)
  show ?thesis
    unfolding inferMonthFromArxivUrl_def
    using mon by (simp only: option.case ne if_False hit Let_def parseInt_two year list.sel take_Suc_Cons take_0 drop_Suc_Cons drop_0 numeral_2_eq_2)
       (auto simp: not_less)
qed

lemma matchArxivAt_digits: "matchArxivAt s = Some g \<Longrightarrow> length g = 4 \<and> list_all isDigit g"
  by (auto simp: matchArxivAt_def Let_def split: if_splits)

lemma searchArxiv_digits: "searchArxiv s = Some g \<Longrightarrow> length g = 4 \<and> list_all isDigit g"
proof (induction s)
  case Nil
  then show ?case by simp
next
  case (Cons c cs)
  then show ?case
    using matchArxivAt_digits[of "c # cs" g] by (auto split: option.splits)
qed

lemma inferMonthFromArxivUrl_length:
  assumes "inferMonthFromArxivUrl u = Some m"
  shows "length m = 7"
proof -
  from assms obtain url g where g: "searchArxiv url = Some g"
    and m: "m = showNat (2000 + parseInt (take 2 g)) @ ''-''
              @ padStart 2 CHR ''0'' (showNat (parseInt (take 2 (drop 2 g))))"
    and range: "1 \<le> parseInt (take 2 (drop 2 g))" "parseInt (take 2 (drop 2 g)) \<le> 12"
    by (auto simp: inferMonthFromArxivUrl_def Let_def not_less split: option.splits if_splits)
  from searchArxiv_digits[OF g] have len: "length g = Suc (Suc (Suc (Suc 0)))"
    and all: "list_all isDigit g" by simp_all
  from len obtain y1 y2 m1 m2 where form: "g = [y1, y2, m1, m2]"
    by (auto simp: length_Suc_conv)
  from all have dig: "isDigit y1" "isDigit y2" "isDigit m1" "isDigit m2"
    by (simp_all add: form)
  have yy: "parseInt (take 2 g) = 10 * digitVal y1 + digitVal y2"
    and mm: "parseInt (take 2 (drop 2 g)) = 10 * digitVal m1 + digitVal m2"
    by (simp_all add: form parseInt_two numeral_2_eq_2)
  have year: "length (showNat (2000 + parseInt (take 2 g))) = 4"
    using dig by (simp add: yy showNat_year digitVal_less)
  have mon: "length (padStart 2 CHR ''0'' (showNat (parseInt (take 2 (drop 2 g))))) = 2"
    using range dig unfolding mm by (simp add: month_two_digits digitVal_less)
  show ?thesis by (simp add: m year mon)
qed

lemma inferMonth_length: "inferMonth p = Some m \<Longrightarrow> length m = 7"
  by (auto simp: inferMonth_def inferMonthFromArxivUrl_length split: option.splits if_splits)

lemma inferMonth_own: "inferMonth p = Some m \<Longrightarrow> m \<noteq> ''__proto__''"
  using inferMonth_length[of p m] by auto

section \<open>The months of a time series\<close>

lemma keys_addMonth:
  "m \<noteq> ''__proto__'' \<Longrightarrow> fst ` set (addMonth eng m n mc) = insert m (fst ` set mc)"
  by (simp add: addMonth_def dom_update)

lemma month_runningTotals: "map month (runningTotals c es) = map fst es"
  by (induction c es rule: runningTotals.induct) (auto simp: Let_def)

lemma cumulativeSeries_months: "map month (cumulativeSeries mc) = sort (map fst mc)"
  by (simp add: cumulativeSeries_def month_runningTotals sort_key_map)

lemma cumulativeSeries_month_set: "month ` set (cumulativeSeries mc) = fst ` set mc"
proof -
  have "set (map month (cumulativeSeries mc)) = set (map fst mc)"
    by (simp only: cumulativeSeries_months set_sort)
  then show ?thesis by simp
qed

lemma series_fold_keys:
  "set (map fst (fold (\<lambda>paper monthCounts.
                   if info_paperId paper = [] then monthCounts
                   else if info_paperId paper \<notin> set ids then monthCounts
                   else (case inferMonth (Some paper) of
                           None \<Rightarrow> monthCounts
                         | Some m \<Rightarrow> addMonth eng m 1 monthCounts)) infos mc0))
   = set (map fst mc0) \<union> set (resolvedMonths ids infos)"
proof (induction infos arbitrary: mc0)
  case Nil
  show ?case by (simp add: resolvedMonths_def map_filter_simps)
next
  case (Cons a infos)
  show ?case
    by (simp only: fold_simps Cons.IH o_apply)
       (auto simp: resolvedMonths_def map_filter_simps keys_addMonth inferMonth_own
          split: option.split)
qed

lemma seriesMonthCounts_keys:
  "fst ` set (seriesMonthCounts eng ids infos) = set (resolvedMonths ids infos)"
  using series_fold_keys[of ids eng infos "[]"] by (simp add: seriesMonthCounts_def)

lemma series_months_set:
  assumes "papersInfo st = Some infos" "seriesPaperIds st k = Inr ids"
  shows "\<exists>pts. getCitationTimeSeries eng st k = Inr pts
           \<and> set (map month pts) = set (resolvedMonths ids infos)"
  using assms seriesMonthCounts_keys[of eng ids infos]
  by (simp add: getCitationTimeSeries_def cumulativeSeries_month_set)

lemma series_excluded:
  assumes "inferMonth (Some p) = None" "papersInfo st = Some (xs @ p # ys)"
  shows "getCitationTimeSeries eng st k
         = getCitationTimeSeries eng (st\<lparr>papersInfo := Some (xs @ ys)\<rparr>) k"
proof -
  have "seriesMonthCounts eng ids (xs @ p # ys) = seriesMonthCounts eng ids (xs @ ys)" for ids
    using assms(1) by (simp add: seriesMonthCounts_def)
  moreover have "seriesPaperIds (st\<lparr>papersInfo := Some (xs @ ys)\<rparr>) k = seriesPaperIds st k"
    by (simp add: seriesPaperIds_def Let_def split: option.split)
  ultimately show ?thesis
    using assms(2) by (simp add: getCitationTimeSeries_def split: sum.split)
qed

lemma series_bucket:
  assumes "papersInfo st = Some infos" "p \<in> set infos" "info_paperId p \<noteq> []"
    "seriesPaperIds st k = Inr ids" "info_paperId p \<in> set ids" "inferMonth (Some p) = Some m"
  shows "\<exists>pts. getCitationTimeSeries eng st k = Inr pts \<and> m \<in> set (map month pts)"
proof -
  have "m \<in> set (resolvedMonths ids infos)"
    using assms by (force simp: resolvedMonths_def map_filter_def)
  with series_months_set[OF assms(1,4), of eng] show ?thesis by auto
qed

lemma seriesPaperIds_returns:
  "getProperty (llmClusters st) key \<noteq> Inherited \<Longrightarrow> \<exists>ids. seriesPaperIds st (Some key) = Inr ids"
  "\<exists>ids. seriesPaperIds st None = Inr ids"
  by (cases "getProperty (llmClusters st) key"; simp add: seriesPaperIds_def Let_def)+


text \<open>
  Claim C2, as amended. A paper whose publication date is a string of at least seven
  characters gets the first seven as its month. Every other paper (no date string, or
  one shorter than seven characters) gets what its arXiv URL yields: at the leftmost
  place where \<^verbatim>\<open>arxiv.org/abs/YYMM.NNNN\<close> stands (the literal in either case, at
  least four digits after the dot) the month \<^verbatim>\<open>20YY-MM\<close> when \<open>1 \<le> MM \<le> 12\<close>, and
  nothing when the month code is out of range, when the URL is missing or when the
  pattern stands nowhere. In the time series a counted paper with a month has that
  month as a bucket, and a paper with none is left out: the series is the one of the
  data without it. The papers counted are those of the paper-ID set the topic key
  selects; there is one for no key and for every key that is not an inherited name
  only. \<^verbatim>\<open>2310.01234\<close> yields \<^verbatim>\<open>2023-10\<close>; month code 13 yields nothing.
\<close>

theorem month_resolution:
  "(\<forall>pub. publicationDate p = Some pub \<and> 7 \<le> length pub
        \<longrightarrow> inferMonth (Some p) = Some (take 7 pub))
   \<and> (publicationDate p = None \<or> (\<exists>pub. publicationDate p = Some pub \<and> length pub < 7)
        \<longrightarrow> inferMonth (Some p) = inferMonthFromArxivUrl (arxivUrl p))
   \<and> (toLowerCase lit = ''arxiv.org/abs/''
        \<and> isDigit y1 \<and> isDigit y2 \<and> isDigit m1 \<and> isDigit m2
        \<and> list_all isDigit ds \<and> 4 \<le> length ds
        \<and> (\<forall>i < length pre.
              matchArxivAt (drop i (pre @ lit @ [y1, y2, m1, m2] @ ''.'' @ ds @ rest)) = None)
        \<longrightarrow> inferMonthFromArxivUrl (Some (pre @ lit @ [y1, y2, m1, m2] @ ''.'' @ ds @ rest))
            = (if 1 \<le> 10 * digitVal m1 + digitVal m2 \<and> 10 * digitVal m1 + digitVal m2 \<le> 12
               then Some (''20'' @ [y1, y2] @ ''-'' @ [m1, m2]) else None))
   \<and> inferMonthFromArxivUrl None = None
   \<and> ((\<forall>i \<le> length url. matchArxivAt (drop i url) = None)
        \<longrightarrow> inferMonthFromArxivUrl (Some url) = None)
   \<and> (papersInfo st = Some infos \<and> q \<in> set infos \<and> info_paperId q \<noteq> []
        \<and> seriesPaperIds st k = Inr ids \<and> info_paperId q \<in> set ids
        \<and> inferMonth (Some q) = Some m
        \<longrightarrow> (\<exists>pts. getCitationTimeSeries eng st k = Inr pts \<and> m \<in> set (map month pts)))
   \<and> (\<exists>ids. seriesPaperIds st None = Inr ids)
   \<and> (getProperty (llmClusters st) key \<noteq> Inherited
        \<longrightarrow> (\<exists>ids. seriesPaperIds st (Some key) = Inr ids))
   \<and> (inferMonth (Some q) = None \<and> papersInfo st = Some (xs @ q # ys)
        \<longrightarrow> getCitationTimeSeries eng st k
            = getCitationTimeSeries eng (st\<lparr>papersInfo := Some (xs @ ys)\<rparr>) k)
   \<and> inferMonthFromArxivUrl (Some ''https://arxiv.org/abs/2310.01234'') = Some ''2023-10''
   \<and> inferMonthFromArxivUrl (Some ''https://arxiv.org/abs/2313.01234'') = None"
proof (intro conjI allI impI)
  fix pub assume "publicationDate p = Some pub \<and> 7 \<le> length pub"
  then show "inferMonth (Some p) = Some (take 7 pub)"
    by (simp add: inferMonth_def)
next
  assume "publicationDate p = None \<or> (\<exists>pub. publicationDate p = Some pub \<and> length pub < 7)"
  then show "inferMonth (Some p) = inferMonthFromArxivUrl (arxivUrl p)"
    by (auto simp: inferMonth_def)
next
  assume "toLowerCase lit = ''arxiv.org/abs/''
        \<and> isDigit y1 \<and> isDigit y2 \<and> isDigit m1 \<and> isDigit m2
        \<and> list_all isDigit ds \<and> 4 \<le> length ds
        \<and> (\<forall>i < length pre.
              matchArxivAt (drop i (pre @ lit @ [y1, y2, m1, m2] @ ''.'' @ ds @ rest)) = None)"
  then show "inferMonthFromArxivUrl (Some (pre @ lit @ [y1, y2, m1, m2] @ ''.'' @ ds @ rest))
            = (if 1 \<le> 10 * digitVal m1 + digitVal m2 \<and> 10 * digitVal m1 + digitVal m2 \<le> 12
               then Some (''20'' @ [y1, y2] @ ''-'' @ [m1, m2]) else None)"
    using inferMonthFromArxivUrl_form by blast
next
  show "inferMonthFromArxivUrl None = None"
    by (simp add: inferMonthFromArxivUrl_def)
next
  assume "\<forall>i \<le> length url. matchArxivAt (drop i url) = None"
  then show "inferMonthFromArxivUrl (Some url) = None"
    by (simp add: inferMonthFromArxivUrl_def searchArxiv_none)
next
  assume "papersInfo st = Some infos \<and> q \<in> set infos \<and> info_paperId q \<noteq> []
        \<and> seriesPaperIds st k = Inr ids \<and> info_paperId q \<in> set ids
        \<and> inferMonth (Some q) = Some m"
  then show "\<exists>pts. getCitationTimeSeries eng st k = Inr pts \<and> m \<in> set (map month pts)"
    using series_bucket by blast
next
  show "\<exists>ids. seriesPaperIds st None = Inr ids"
    by (rule seriesPaperIds_returns(2))
next
  assume "getProperty (llmClusters st) key \<noteq> Inherited"
  then show "\<exists>ids. seriesPaperIds st (Some key) = Inr ids"
    by (rule seriesPaperIds_returns(1))
next
  assume "inferMonth (Some q) = None \<and> papersInfo st = Some (xs @ q # ys)"
  then show "getCitationTimeSeries eng st k
            = getCitationTimeSeries eng (st\<lparr>papersInfo := Some (xs @ ys)\<rparr>) k"
    using series_excluded by blast
next
  show "inferMonthFromArxivUrl (Some ''https://arxiv.org/abs/2310.01234'') = Some ''2023-10''"
    by code_simp
next
  show "inferMonthFromArxivUrl (Some ''https://arxiv.org/abs/2313.01234'') = None"
    by code_simp
qed

lemma ex_no_earlier_match:
  "\<forall>i < length ''https://''.
     matchArxivAt (drop i (''https://'' @ ''arxiv.org/abs/''
        @ [CHR ''2'', CHR ''3'', CHR ''1'', CHR ''0''] @ ''.'' @ ''01234'' @ [])) = None"
proof -
  have "\<forall>i \<in> set [0..<8].
     matchArxivAt (drop i (''https://'' @ ''arxiv.org/abs/''
        @ [CHR ''2'', CHR ''3'', CHR ''1'', CHR ''0''] @ ''.'' @ ''01234'' @ [])) = None"
    by code_simp
  then show ?thesis by simp
qed

lemma ex_series: "getCitationTimeSeries exEngine exState None =
    Inr [\<lparr>month = ''2023-05'', citations = Num 1\<rparr>, \<lparr>month = ''2023-10'', citations = Num 2\<rparr>]"
  by code_simp

theorem month_resolution_witness:
  "publicationDate (exInfos ! 0) = Some ''2023-10-01''
   \<and> inferMonth (Some (exInfos ! 0)) = Some ''2023-10''
   \<and> publicationDate (exInfos ! 1) = None
   \<and> inferMonth (Some (exInfos ! 1)) = Some ''2023-05''
   \<and> inferMonthFromArxivUrl (Some ''https://arxiv.org/abs/2310.01234'') = Some ''2023-10''
   \<and> inferMonth (Some (exInfos ! 2)) = None
   \<and> getCitationTimeSeries exEngine exState None
       = getCitationTimeSeries exEngine (exState\<lparr>papersInfo := Some [exInfos ! 0, exInfos ! 1]\<rparr>) None
   \<and> seriesPaperIds exState None = Inr [''a'', ''b'', ''c'']
   \<and> (\<exists>pts. getCitationTimeSeries exEngine exState None = Inr pts
          \<and> ''2023-05'' \<in> set (map month pts))"
proof -
  note inst = month_resolution[where lit = "''arxiv.org/abs/''" and ?y1.0 = "CHR ''2''"
      and ?y2.0 = "CHR ''3''" and ?m1.0 = "CHR ''1''" and ?m2.0 = "CHR ''0''"
      and ds = "''01234''" and pre = "''https://''" and rest = "[]"]
  have a: "publicationDate (exInfos ! 0) = Some ''2023-10-01''"
    by (simp add: exInfos_def)
  have b: "publicationDate (exInfos ! 1) = None"
    by (simp add: exInfos_def)
  from month_resolution[of "exInfos ! 0"] a
  have 1: "inferMonth (Some (exInfos ! 0)) = Some ''2023-10''" by simp
  have u: "arxivUrl (exInfos ! 1) = Some ''http://arxiv.org/abs/2305.12345''"
    by (simp add: exInfos_def)
  have "inferMonthFromArxivUrl (Some ''http://arxiv.org/abs/2305.12345'') = Some ''2023-05''"
    by code_simp
  with month_resolution[of "exInfos ! 1"] b u
  have 2: "inferMonth (Some (exInfos ! 1)) = Some ''2023-05''" by simp
  have dig: "isDigit CHR ''2''" "isDigit CHR ''3''" "isDigit CHR ''1''" "isDigit CHR ''0''"
      "list_all isDigit ''01234''" "toLowerCase ''arxiv.org/abs/'' = ''arxiv.org/abs/''"
    by (simp_all add: isDigit_def toLowerCase_def toLowerChar_def)
  have val: "digitVal CHR ''1'' = 1" "digitVal CHR ''0'' = 0"
    by (simp_all add: digitVal_def)
  from inst dig ex_no_earlier_match
  have 3: "inferMonthFromArxivUrl (Some ''https://arxiv.org/abs/2310.01234'') = Some ''2023-10''"
    by (simp add: val)
  have 4: "inferMonth (Some (exInfos ! 2)) = None"
    by code_simp
  have s: "papersInfo exState = Some ([exInfos ! 0, exInfos ! 1] @ exInfos ! 2 # [])"
    by (simp add: exState_def exInfos_def)
  from month_resolution[where st = exState and q = "exInfos ! 2" and k = None
      and xs = "[exInfos ! 0, exInfos ! 1]" and ys = "[]" and eng = exEngine] 4 s
  have 5: "getCitationTimeSeries exEngine exState None
       = getCitationTimeSeries exEngine (exState\<lparr>papersInfo := Some [exInfos ! 0, exInfos ! 1]\<rparr>) None"
    by simp
  have 6: "seriesPaperIds exState None = Inr [''a'', ''b'', ''c'']"
    by (simp add: seriesPaperIds_def exState_def exCluster_def)
  have q: "papersInfo exState = Some exInfos" "exInfos ! 1 \<in> set exInfos"
      "info_paperId (exInfos ! 1) \<noteq> []" "info_paperId (exInfos ! 1) \<in> set [''a'', ''b'', ''c'']"
    by (simp_all add: exState_def exInfos_def)
  from month_resolution[where st = exState and q = "exInfos ! 1" and k = None
      and infos = exInfos and ids = "[''a'', ''b'', ''c'']" and m = "''2023-05''"
      and eng = exEngine] q 6 2
  have 7: "\<exists>pts. getCitationTimeSeries exEngine exState None = Inr pts
          \<and> ''2023-05'' \<in> set (map month pts)"
    by blast
  from a 1 b 2 3 4 5 6 7 show ?thesis by simp
qed

text \<open>
  A paper with the date string \<^verbatim>\<open>2023\<close> and an arXiv URL of October 2023 is not
  bucketed under the first seven characters of its date: the URL decides.
\<close>

theorem short_date_counterexample:
  "publicationDate exShortDate = Some ''2023''
   \<and> inferMonth (Some exShortDate) = Some ''2023-10''
   \<and> inferMonth (Some exShortDate) \<noteq> Some (take 7 ''2023'')"
  by code_simp

section \<open>Cumulative time series\<close>

text \<open>
  Claim C5 says that for every relation set and every optional topic key the series is
  a sequence of points in month order whose citations are the running sums of the
  per-month counts, so non-decreasing. The query keeps its counts in a plain object and
  reads topics from one, and both reads also find what every object inherits. With a
  publication date that starts with \<^verbatim>\<open>valueOf\<close>, the read
  \<^verbatim>\<open>monthCounts[month] || 0\<close> finds the inherited function, \<^verbatim>\<open>+ 1\<close> makes a string
  of it, and from that month on the citations are strings, not sums. With the topic key
  \<^verbatim>\<open>constructor\<close> the guard \<^verbatim>\<open>llmClusters[llmClusterId]\<close> passes on the inherited
  function and \<^verbatim>\<open>.docs.map\<close> throws: no sequence is returned, by the time series and
  by the multi-series query alike.
\<close>

theorem cumulative_series_inherited_names:
  "getCitationTimeSeries exEngine exValueOf None =
     Inr [\<lparr>month = ''2023-05'', citations = Num 1\<rparr>,
          \<lparr>month = ''valueOf'',
            citations = Str ''1function valueOf() { [native code] }1''\<rparr>]
   \<and> getCitationTimeSeries eng exState (Some ''constructor'') = Inl TypeError
   \<and> getMultiSeriesCitationData eng label exState ''constructor'' = Inl TypeError"
proof -
  have 1: "getCitationTimeSeries exEngine exValueOf None =
     Inr [\<lparr>month = ''2023-05'', citations = Num 1\<rparr>,
          \<lparr>month = ''valueOf'',
            citations = Str ''1function valueOf() { [native code] }1''\<rparr>]"
    by code_simp
  have p: "getProperty (llmClusters exState) ''constructor'' = Inherited"
    by (simp add: getProperty_def exState_def objectPrototypeNames_def)
  have i: "papersInfo exState = Some exInfos" "filteredPapers exState = Some exPapers"
    by (simp_all add: exState_def)
  have s: "seriesPaperIds exState (Some ''constructor'') = Inl TypeError"
    by (simp add: seriesPaperIds_def p)
  have 2: "getCitationTimeSeries eng exState (Some ''constructor'') = Inl TypeError"
    by (simp add: getCitationTimeSeries_def i s)
  have 3: "getMultiSeriesCitationData eng label exState ''constructor'' = Inl TypeError"
    by (simp add: getMultiSeriesCitationData_def i p)
  from 1 2 3 show ?thesis by simp
qed

section \<open>Theory distribution and absent keys\<close>

lemma getProperty_named:
  "name \<notin> set objectPrototypeNames \<Longrightarrow>
   getProperty obj name = (case map_of obj name of Some v \<Rightarrow> Own v | None \<Rightarrow> Missing)"
  by (simp add: getProperty_def)

lemma findTheory_Missing:
  "(\<forall>(ck, theories) \<in> set pool. getProperty theories name = Missing) \<Longrightarrow>
   findTheory pool name = Missing"
  by (induction pool name rule: findTheory.induct) auto


lemma map_of_fold_update:
  "map_of (fold (\<lambda>x m. if P x then AList.update (kf x) (vf x) m else m) xs m0) k
   = (case filter (\<lambda>x. P x \<and> kf x = k) xs of
        [] \<Rightarrow> map_of m0 k
      | r # rs \<Rightarrow> Some (vf (last (r # rs))))"
proof (induction xs arbitrary: m0)
  case Nil
  show ?case by simp
next
  case (Cons x xs)
  show ?case
    by (simp only: fold_simps Cons.IH o_apply)
       (auto simp: update_conv' split: list.split)
qed

lemma fold_update_empty:
  "fold (\<lambda>x m. if P x then AList.update (kf x) (vf x) m else m) xs m0 = []
   \<longleftrightarrow> m0 = [] \<and> (\<forall>x \<in> set xs. \<not> P x)"
proof (induction xs arbitrary: m0)
  case Nil
  show ?case by simp
next
  case (Cons x xs)
  have "AList.update a b m \<noteq> []" for a b and m :: "(string \<times> string) list"
    by (cases m) auto
  then show ?case
    by (simp only: fold_simps Cons.IH o_apply) auto
qed


lemma buildTitleMap_empty:
  "buildTitleMap refs = [] \<longleftrightarrow> (\<forall>r \<in> set refs. ref_title r = [] \<or> refInfo_paperId r = [])"
  unfolding buildTitleMap_def
  by (simp add: fold_update_empty[where P = "\<lambda>r. ref_title r \<noteq> [] \<and> refInfo_paperId r \<noteq> []"])









text \<open>
  Claim C10. Whenever the title map is empty, \<^verbatim>\<open>getTheoryDistribution\<close> returns the
  empty list for every theory name, also one of the pool; and the map the
  loader builds is empty exactly when every record of \<^verbatim>\<open>refsInfo\<close> lacks a title or a
  paper ID.
\<close>

theorem empty_title_map_no_rows:
  "(titleToPaperId st = [] \<longrightarrow> getTheoryDistribution label st name = Inr [])
   \<and> (buildTitleMap refs = [] \<longleftrightarrow> (\<forall>r \<in> set refs. ref_title r = [] \<or> refInfo_paperId r = []))"
proof (intro conjI impI)
  assume empty: "titleToPaperId st = []"
  show "getTheoryDistribution label st name = Inr []"
  proof (cases "filteredPapers st")
    case None
    then show ?thesis by (simp add: getTheoryDistribution_def)
  next
    case (Some papers)
    with empty show ?thesis by (simp add: getTheoryDistribution_def)
  qed
next
  show "buildTitleMap refs = [] \<longleftrightarrow> (\<forall>r \<in> set refs. ref_title r = [] \<or> refInfo_paperId r = [])"
    by (rule buildTitleMap_empty)
qed

theorem empty_title_map_no_rows_witness:
  "buildTitleMap exUntitledRefs = []
   \<and> findTheory (theoryPool exState) ''A'' \<noteq> Missing
   \<and> length (llmClusters exState) = 2
   \<and> getTheoryDistribution exLabel (exState\<lparr>titleToPaperId := buildTitleMap exUntitledRefs\<rparr>) ''A''
       = Inr []"
proof -
  have "\<forall>r \<in> set exUntitledRefs. ref_title r = [] \<or> refInfo_paperId r = []"
    by (simp add: exUntitledRefs_def)
  with empty_title_map_no_rows[of _ _ _ exUntitledRefs]
  have e: "buildTitleMap exUntitledRefs = []" by blast
  have "getTheoryDistribution exLabel (exState\<lparr>titleToPaperId := buildTitleMap exUntitledRefs\<rparr>) ''A''
       = Inr []"
    using empty_title_map_no_rows[of "exState\<lparr>titleToPaperId := buildTitleMap exUntitledRefs\<rparr>"
      exLabel "''A''" "[]"] by (simp add: e)
  moreover have "findTheory (theoryPool exState) ''A'' \<noteq> Missing"
    by (simp add: exState_def exPool_def getProperty_def)
  moreover have "length (llmClusters exState) = 2" by (simp add: exState_def)
  ultimately show ?thesis using e by simp
qed

lemma cluster_key_own: "clusterKeyOf eng pid \<notin> set objectPrototypeNames"
  by (simp add: clusterKeyOf_def objectPrototypeNames_def)

lemma ex_cluster_keys:
  "clusterKeyOf eng ''Cluster 0'' = ''Cluster 0''"
  "clusterKeyOf eng ''Cluster 9'' = ''Cluster 9''"
proof -
  have m: "matchCluster ''Cluster 0'' = Some ''0''" "matchCluster ''Cluster 9'' = Some ''9''"
    by code_simp+
  have n: "getClusterNumber ''Cluster 0'' = Safe 0" "getClusterNumber ''Cluster 9'' = Safe 9"
    by (simp_all add: getClusterNumber_def m parseInt_def digitVal_def isDigit_def)
  show "clusterKeyOf eng ''Cluster 0'' = ''Cluster 0''"
    "clusterKeyOf eng ''Cluster 9'' = ''Cluster 9''"
    by (simp_all add: clusterKeyOf_def n numberToString_def showNat.simps digitChar_def)
qed

text \<open>
  Claim C7, as amended. For a topic key that is neither a key of the LLM topics nor a
  name every object inherits, the multi-series query returns the empty list, and the
  time-series query returns the series over all topics, as it does for no key. For a
  theory name that no topic's pool holds or inherits, the theory distribution is empty.
  For a key that holds a cluster number \<open>n\<close>, the theory table is empty whenever
  \<^verbatim>\<open>Cluster n\<close> is missing among the subtopics or in the theory pool; that key is never
  an inherited name.
\<close>

theorem absent_key_results:
  "(getProperty (llmClusters st) k = Missing
        \<longrightarrow> getMultiSeriesCitationData eng label st k = Inr [])
   \<and> ((\<forall>(ck, theories) \<in> set (theoryPool st). getProperty theories name = Missing)
        \<longrightarrow> getTheoryDistribution label st name = Inr [])
   \<and> (matchCluster pid \<noteq> None
        \<and> (map_of (secondaryClusters st) (clusterKeyOf eng pid) = None
           \<or> map_of (theoryPool st) (clusterKeyOf eng pid) = None)
        \<longrightarrow> getTheoryTableData eng st pid = [])
   \<and> getProperty (theoryPool st) (clusterKeyOf eng pid) \<noteq> Inherited
   \<and> getProperty (secondaryClusters st) (clusterKeyOf eng pid) \<noteq> Inherited
   \<and> (getProperty (llmClusters st) k = Missing
        \<longrightarrow> getCitationTimeSeries eng st (Some k) = getCitationTimeSeries eng st None)"
proof (intro conjI impI)
  assume "getProperty (llmClusters st) k = Missing"
  then show "getMultiSeriesCitationData eng label st k = Inr []"
    by (simp add: getMultiSeriesCitationData_def split: option.split)
next
  assume "\<forall>(ck, theories) \<in> set (theoryPool st). getProperty theories name = Missing"
  then have "findTheory (theoryPool st) name = Missing" by (rule findTheory_Missing)
  then show "getTheoryDistribution label st name = Inr []"
    by (simp add: getTheoryDistribution_def split: option.split)
next
  assume "matchCluster pid \<noteq> None
        \<and> (map_of (secondaryClusters st) (clusterKeyOf eng pid) = None
           \<or> map_of (theoryPool st) (clusterKeyOf eng pid) = None)"
  then show "getTheoryTableData eng st pid = []"
    by (auto simp: getTheoryTableData_def Let_def split: option.split)
next
  show "getProperty (theoryPool st) (clusterKeyOf eng pid) \<noteq> Inherited"
    by (simp add: getProperty_named[OF cluster_key_own] split: option.split)
next
  show "getProperty (secondaryClusters st) (clusterKeyOf eng pid) \<noteq> Inherited"
    by (simp add: getProperty_named[OF cluster_key_own] split: option.split)
next
  assume "getProperty (llmClusters st) k = Missing"
  then have "seriesPaperIds st (Some k) = seriesPaperIds st None"
    by (simp add: seriesPaperIds_def Let_def)
  then show "getCitationTimeSeries eng st (Some k) = getCitationTimeSeries eng st None"
    by (simp add: getCitationTimeSeries_def split: option.split)
qed

theorem absent_key_results_witness:
  "getProperty (llmClusters exState) ''Cluster 9'' = Missing
   \<and> getMultiSeriesCitationData exEngine exLabel exState ''Cluster 9'' = Inr []
   \<and> getTheoryDistribution exLabel exState ''Unheard-of theory'' = Inr []
   \<and> matchCluster ''Cluster 9'' = Some ''9''
   \<and> clusterKeyOf exEngine ''Cluster 9'' = ''Cluster 9''
   \<and> map_of (theoryPool exState) ''Cluster 9'' = None
   \<and> getTheoryTableData exEngine exState ''Cluster 9'' = []
   \<and> getCitationTimeSeries exEngine exState (Some ''Cluster 9'')
       = getCitationTimeSeries exEngine exState None"
proof -
  have 1: "getProperty (llmClusters exState) ''Cluster 9'' = Missing"
    by (simp add: exState_def getProperty_def objectPrototypeNames_def)
  have 2: "\<forall>(ck, theories) \<in> set (theoryPool exState).
      getProperty theories ''Unheard-of theory'' = Missing"
    by (simp add: exState_def exPool_def getProperty_def objectPrototypeNames_def)
  have m: "matchCluster ''Cluster 9'' = Some ''9''"
    by code_simp
  have k: "clusterKeyOf exEngine ''Cluster 9'' = ''Cluster 9''"
    by (rule ex_cluster_keys)
  have 3: "map_of (theoryPool exState) ''Cluster 9'' = None"
    by (simp add: exState_def)
  from absent_key_results[of exState "''Cluster 9''" exEngine exLabel "''Unheard-of theory''"
      "''Cluster 9''"] 1 2 3 m k
  show ?thesis by simp
qed

text \<open>
  For the key \<^verbatim>\<open>Cluster 9\<close>, which no relation has and no object inherits, the time
  series is the overall one, not empty.
\<close>

theorem absent_key_counterexample:
  "map_of (llmClusters exState) ''Cluster 9'' = None
   \<and> ''Cluster 9'' \<notin> set objectPrototypeNames
   \<and> getCitationTimeSeries exEngine exState (Some ''Cluster 9'') =
       Inr [\<lparr>month = ''2023-05'', citations = Num 1\<rparr>, \<lparr>month = ''2023-10'', citations = Num 2\<rparr>]"
  by code_simp

section \<open>Top theories and the theory table\<close>

lemma sort_key_nth:
  "sort_key f xs = map (nth xs) (sort_key (\<lambda>i. f (xs ! i)) [0..<length xs])"
proof -
  have "sort_key f xs = sort_key f (map (nth xs) [0..<length xs])"
    by (simp add: map_nth)
  then show ?thesis by (simp only: sort_key_map)
qed

lemma insort_before:
  "sorted_wrt (before g) ys \<Longrightarrow> \<forall>y \<in> set ys. i < y \<Longrightarrow> sorted_wrt (before g) (insort_key g i ys)"
proof (induction ys)
  case Nil
  show ?case by simp
next
  case (Cons y ys)
  show ?case
  proof (cases "g i \<le> g y")
    case True
    have "before g i z" if "z \<in> set (y # ys)" for z
    proof -
      have "g y \<le> g z" using that Cons.prems(1) by (auto simp: before_def)
      moreover have "i < z" using that Cons.prems(2) by auto
      ultimately show ?thesis using True by (auto simp: before_def)
    qed
    then show ?thesis using True Cons.prems(1) by simp
  next
    case False
    then have "before g y i" by (auto simp: before_def)
    moreover have "sorted_wrt (before g) (insort_key g i ys)"
      using Cons by simp
    ultimately show ?thesis using False Cons.prems(1) by (auto simp: set_insort_key)
  qed
qed

lemma sort_key_before:
  "sorted_wrt (<) js \<Longrightarrow> sorted_wrt (before g) (sort_key g js)"
proof (induction js)
  case Nil
  show ?case by simp
next
  case (Cons j js)
  have "\<forall>y \<in> set (sort_key g js). j < y" using Cons.prems by simp
  moreover have "sorted_wrt (before g) (sort_key g js)" using Cons by simp
  ultimately show ?case by (simp add: insort_before)
qed

lemma take_rank:
  assumes sorted: "sorted_wrt (before g) ys" and mem: "x \<in> set ys"
  shows "x \<in> set (take n ys) \<longleftrightarrow> card {y \<in> set ys. before g y x} < n"
proof -
  have dist: "distinct ys"
    using sorted by (induction ys) (auto simp: before_def)
  obtain p where p: "p < length ys" "ys ! p = x"
    using mem by (auto simp: in_set_conv_nth)
  have nth_before: "before g (ys ! a) (ys ! b)" if "a < b" "b < length ys" for a b
    using sorted that by (simp add: sorted_wrt_iff_nth_less)
  have "{y \<in> set ys. before g y x} = set (take p ys)"
  proof (intro equalityI subsetI)
    fix y assume "y \<in> {y \<in> set ys. before g y x}"
    then obtain q where q: "q < length ys" "ys ! q = y" and b: "before g y x"
      by (auto simp: in_set_conv_nth)
    have "q < p"
    proof (rule ccontr)
      assume "\<not> q < p"
      then consider "q = p" | "p < q" by linarith
      then show False
      proof cases
        case 1
        then show False using b p q by (auto simp: before_def)
      next
        case 2
        from nth_before[OF 2 q(1)] b p q show False by (auto simp: before_def)
      qed
    qed
    then show "y \<in> set (take p ys)"
      using q p by (auto simp: in_set_conv_nth)
  next
    fix y assume "y \<in> set (take p ys)"
    then obtain q where "q < p" "ys ! q = y"
      using p by (auto simp: in_set_conv_nth)
    then show "y \<in> {y \<in> set ys. before g y x}"
      using nth_before[of q p] p by auto
  qed
  then have card: "card {y \<in> set ys. before g y x} = p"
    using dist p by (simp add: distinct_card)
  have "x \<in> set (take n ys) \<longleftrightarrow> p < n"
  proof
    assume "x \<in> set (take n ys)"
    then obtain q where q: "q < n" "q < length ys" "ys ! q = x"
      by (auto simp: in_set_conv_nth)
    then have "q = p" using dist p nth_eq_iff_index_eq[of ys q p] by simp
    then show "p < n" using q by simp
  next
    assume "p < n"
    then show "x \<in> set (take n ys)" using p by (auto simp: in_set_conv_nth)
  qed
  then show ?thesis by (simp add: card)
qed


lemma top_names_perm:
  "map top_name (getTopTheories ct n)
   = map (\<lambda>j. fst (ct ! j))
       (take n (sort_key
          (\<lambda>j. - top_citations
             (map (\<lambda>(name, d). \<lparr>top_name = name, top_citations = citation d\<rparr>) ct ! j))
          [0..<length ct]))"
proof -
  let ?tops = "map (\<lambda>(name, d). \<lparr>top_name = name, top_citations = citation d\<rparr>) ct"
  let ?perm = "sort_key (\<lambda>j. - top_citations (?tops ! j)) [0..<length ct]"
  have set_perm: "set ?perm = {0..<length ct}" by simp
  have "getTopTheories ct n = map (nth ?tops) (take n ?perm)"
    unfolding getTopTheories_def by (subst sort_key_nth) (simp add: take_map)
  then have "map top_name (getTopTheories ct n) = map (\<lambda>j. top_name (?tops ! j)) (take n ?perm)"
    by simp
  also have "\<dots> = map (\<lambda>j. fst (ct ! j)) (take n ?perm)"
  proof (rule map_cong[OF refl])
    fix j assume "j \<in> set (take n ?perm)"
    then have "j \<in> set ?perm" by (rule in_set_takeD)
    then have "j < length ct" using set_perm by simp
    then show "top_name (?tops ! j) = fst (ct ! j)" by (simp add: split_def)
  qed
  finally show ?thesis .
qed

lemma top_names_rank:
  assumes dist: "distinct (map fst ct)" and i: "i < length ct"
  shows "fst (ct ! i) \<in> set (map top_name (getTopTheories ct n))
         \<longleftrightarrow> card {j. j < length ct \<and> outranks ct j i} < n"
proof -
  let ?tops = "map (\<lambda>(name, d). \<lparr>top_name = name, top_citations = citation d\<rparr>) ct"
  let ?g = "\<lambda>j. - top_citations (?tops ! j)"
  let ?perm = "sort_key ?g [0..<length ct]"
  have sorted: "sorted_wrt (before ?g) ?perm"
    by (rule sort_key_before) simp
  have set_perm: "set ?perm = {0..<length ct}" by simp
  have mem: "i \<in> set ?perm" using i by simp
  have g: "?g j = - citation (snd (ct ! j))" if "j < length ct" for j
    using that by (simp add: split_def)
  have inj: "fst (ct ! i) \<in> (\<lambda>j. fst (ct ! j)) ` set (take n ?perm) \<longleftrightarrow> i \<in> set (take n ?perm)"
  proof
    assume "fst (ct ! i) \<in> (\<lambda>j. fst (ct ! j)) ` set (take n ?perm)"
    then obtain j where j: "j \<in> set (take n ?perm)" "fst (ct ! j) = fst (ct ! i)" by auto
    then have "j < length ct" using set_perm in_set_takeD[OF j(1)] by simp
    with j(2) i dist have "j = i"
      using nth_eq_iff_index_eq[of "map fst ct" j i] by simp
    with j(1) show "i \<in> set (take n ?perm)" by simp
  next
    assume "i \<in> set (take n ?perm)"
    then show "fst (ct ! i) \<in> (\<lambda>j. fst (ct ! j)) ` set (take n ?perm)" by blast
  qed
  have "{y \<in> set ?perm. before ?g y i} = {j. j < length ct \<and> outranks ct j i}"
    using i by (auto simp: before_def outranks_def split_def)
  with take_rank[OF sorted mem, of n] inj show ?thesis
    by (simp only: top_names_perm set_map)
qed

lemma top_names_card:
  assumes "distinct (map fst ct)"
  shows "card (set (map top_name (getTopTheories ct n))) = min n (length ct)"
proof -
  let ?tops = "map (\<lambda>(name, d). \<lparr>top_name = name, top_citations = citation d\<rparr>) ct"
  have names: "map top_name ?tops = map fst ct" by (simp add: split_def comp_def)
  have "mset (map top_name (sort_key (\<lambda>t. - top_citations t) ?tops)) = mset (map top_name ?tops)"
    by (simp only: mset_map mset_sort)
  then have "distinct (map top_name (sort_key (\<lambda>t. - top_citations t) ?tops))"
    using assms names by (metis mset_eq_imp_distinct_iff)
  then have "distinct (take n (map top_name (sort_key (\<lambda>t. - top_citations t) ?tops)))"
    by (rule distinct_take)
  then have "distinct (map top_name (getTopTheories ct n))"
    by (simp add: getTopTheories_def take_map)
  then have "card (set (map top_name (getTopTheories ct n))) = length (map top_name (getTopTheories ct n))"
    by (rule distinct_card)
  then show ?thesis by (simp add: getTopTheories_def min.commute)
qed


lemma normalizedToCanonicalMap_lookup:
  "map_of (normalizedToCanonicalMap ct) k
   = (case filter (\<lambda>c. normalizeTheoryName c = k) (map fst ct) of
        [] \<Rightarrow> None
      | c # cs \<Rightarrow> Some (last (c # cs)))"
  unfolding normalizedToCanonicalMap_def
  using map_of_fold_update[of "\<lambda>_. True" normalizeTheoryName "\<lambda>c. c" "map fst ct" "[]" k]
  by (simp cong: list.case_cong)

lemma normalizedToCanonicalMap_value:
  assumes "map_of (normalizedToCanonicalMap ct) k = Some c"
  shows "c \<in> fst ` set ct"
proof -
  from assms obtain x xs where
    f: "filter (\<lambda>c. normalizeTheoryName c = k) (map fst ct) = x # xs" and c: "c = last (x # xs)"
    by (auto simp: normalizedToCanonicalMap_lookup split: list.splits)
  have "last (x # xs) \<in> set (filter (\<lambda>c. normalizeTheoryName c = k) (map fst ct))"
    unfolding f by (rule last_in_set) simp
  then show ?thesis unfolding c by auto
qed

lemma getProperty_Own: "map_of obj k = Some v \<Longrightarrow> getProperty obj k = Own v"
  by (simp add: getProperty_def)

lemma getProperty_key:
  assumes "k \<in> fst ` set obj"
  shows "getProperty obj k = Own (the (map_of obj k))"
proof -
  from assms obtain v where "map_of obj k = Some v"
    using map_of_eq_None_iff[of obj k] by auto
  then show ?thesis by (simp add: getProperty_def)
qed

lemma getProperty_Own_key:
  assumes "getProperty obj k = Own v"
  shows "k \<in> fst ` set obj" and "map_of obj k = Some v"
proof -
  from assms show m: "map_of obj k = Some v"
    by (cases "map_of obj k") (simp_all add: getProperty_def split: if_splits)
  then have "(k, v) \<in> set obj" by (rule map_of_SomeD)
  then show "k \<in> fst ` set obj" by (rule rev_image_eqI) simp
qed

lemma pushTheoryRow_found:
  "getProperty ct theoryName \<noteq> Missing \<Longrightarrow>
   pushTheoryRow ct n2c topNames sub theoryName rows
   = rows @ [\<lparr>row_subtopic = sub_topic sub, row_theory = theoryName,
              row_citations = citationOf (getProperty ct theoryName),
              isTopThree = (theoryName \<in> set topNames)\<rparr>]"
  by (simp add: pushTheoryRow_def)

lemma pushTheoryRow_fallback:
  "getProperty ct theoryName = Missing \<Longrightarrow>
   pushTheoryRow ct n2c topNames sub theoryName rows
   = (case map_of n2c (normalizeTheoryName theoryName) of
        None \<Rightarrow> rows
      | Some c \<Rightarrow>
          if c = [] \<or> getProperty ct c = Missing then rows
          else rows @ [\<lparr>row_subtopic = sub_topic sub, row_theory = c,
                         row_citations = citationOf (getProperty ct c),
                         isTopThree = (c \<in> set topNames)\<rparr>])"
  by (simp add: pushTheoryRow_def Let_def split: option.split)

lemma pushTheoryRow_marks:
  assumes "r \<in> set (pushTheoryRow ct (normalizedToCanonicalMap ct) topNames sub theoryName rows)"
    and "getProperty ct theoryName \<noteq> Inherited"
  shows "r \<in> set rows
         \<or> (row_theory r \<in> fst ` set ct
            \<and> row_citations r = Some (citation (the (map_of ct (row_theory r))))
            \<and> (isTopThree r \<longleftrightarrow> row_theory r \<in> set topNames))"
proof (cases "getProperty ct theoryName")
  case (Own d)
  note k = getProperty_Own_key[OF Own]
  have "pushTheoryRow ct (normalizedToCanonicalMap ct) topNames sub theoryName rows
      = rows @ [\<lparr>row_subtopic = sub_topic sub, row_theory = theoryName,
              row_citations = Some (citation d),
              isTopThree = (theoryName \<in> set topNames)\<rparr>]"
    by (simp add: pushTheoryRow_found Own citationOf_def)
  with assms(1) have "r \<in> set rows \<or> r = \<lparr>row_subtopic = sub_topic sub, row_theory = theoryName,
              row_citations = Some (citation d),
              isTopThree = (theoryName \<in> set topNames)\<rparr>"
    by auto
  with k show ?thesis by (elim disjE) simp_all
next
  case Inherited
  with assms(2) show ?thesis by simp
next
  case Missing
  note fb = pushTheoryRow_fallback[OF Missing, of "normalizedToCanonicalMap ct" topNames sub rows]
  show ?thesis
  proof (cases "map_of (normalizedToCanonicalMap ct) (normalizeTheoryName theoryName)")
    case None
    with fb assms(1) show ?thesis by simp
  next
    case (Some c)
    show ?thesis
    proof (cases "c = []")
      case True
      with Some fb assms(1) show ?thesis by simp
    next
      case False
      from normalizedToCanonicalMap_value[OF Some] have k: "c \<in> fst ` set ct" .
      note own = getProperty_key[OF k]
      have "pushTheoryRow ct (normalizedToCanonicalMap ct) topNames sub theoryName rows
          = rows @ [\<lparr>row_subtopic = sub_topic sub, row_theory = c,
                         row_citations = Some (citation (the (map_of ct c))),
                         isTopThree = (c \<in> set topNames)\<rparr>]"
        by (simp add: fb Some False own citationOf_def)
      with assms(1) have "r \<in> set rows \<or> r = \<lparr>row_subtopic = sub_topic sub, row_theory = c,
                         row_citations = Some (citation (the (map_of ct c))),
                         isTopThree = (c \<in> set topNames)\<rparr>"
        by auto
      with k show ?thesis by (elim disjE) simp_all
    qed
  qed
qed

lemma theoryRows_marks:
  assumes "r \<in> set (theoryRows ct (normalizedToCanonicalMap ct) topNames scd)"
    and "\<forall>(k, sub) \<in> set scd. \<forall>n \<in> set (sub_theories sub). getProperty ct n \<noteq> Inherited"
  shows "row_theory r \<in> fst ` set ct
         \<and> row_citations r = Some (citation (the (map_of ct (row_theory r))))
         \<and> (isTopThree r \<longleftrightarrow> row_theory r \<in> set topNames)"
proof -
  let ?P = "\<lambda>r. row_theory r \<in> fst ` set ct
         \<and> row_citations r = Some (citation (the (map_of ct (row_theory r))))
         \<and> (isTopThree r \<longleftrightarrow> row_theory r \<in> set topNames)"
  let ?n2c = "normalizedToCanonicalMap ct"
  have inner: "\<forall>r \<in> set rows. ?P r \<Longrightarrow> \<forall>n \<in> set names. getProperty ct n \<noteq> Inherited \<Longrightarrow>
      \<forall>r \<in> set (fold (pushTheoryRow ct ?n2c topNames sub) names rows). ?P r" for sub names rows
  proof (induction names arbitrary: rows)
    case Nil
    then show ?case by simp
  next
    case (Cons n names)
    have n: "getProperty ct n \<noteq> Inherited" using Cons.prems(2) by simp
    have "\<forall>r \<in> set (pushTheoryRow ct ?n2c topNames sub n rows). ?P r"
    proof
      fix r assume "r \<in> set (pushTheoryRow ct ?n2c topNames sub n rows)"
      from pushTheoryRow_marks[OF this n] Cons.prems(1) show "?P r" by blast
    qed
    moreover have "\<forall>n \<in> set names. getProperty ct n \<noteq> Inherited"
      using Cons.prems(2) by simp
    ultimately have "\<forall>r \<in> set (fold (pushTheoryRow ct ?n2c topNames sub) names
        (pushTheoryRow ct ?n2c topNames sub n rows)). ?P r"
      by (rule Cons.IH)
    then show ?case by simp
  qed
  have outer: "\<forall>r \<in> set acc. ?P r \<Longrightarrow>
      \<forall>(k, sub) \<in> set xs. \<forall>n \<in> set (sub_theories sub). getProperty ct n \<noteq> Inherited \<Longrightarrow>
      \<forall>r \<in> set (fold (\<lambda>(_, subCluster) rows.
        fold (pushTheoryRow ct ?n2c topNames subCluster)
          (sub_theories subCluster) rows) xs acc). ?P r" for acc xs
  proof (induction xs arbitrary: acc)
    case Nil
    then show ?case by simp
  next
    case (Cons a xs)
    obtain k sub where a: "a = (k, sub)" by (cases a)
    have "\<forall>n \<in> set (sub_theories sub). getProperty ct n \<noteq> Inherited"
      using Cons.prems(2) by (simp add: a)
    with Cons.prems(1)
    have "\<forall>r \<in> set (fold (pushTheoryRow ct ?n2c topNames sub) (sub_theories sub) acc). ?P r"
      by (rule inner)
    moreover have "\<forall>(k, sub) \<in> set xs. \<forall>n \<in> set (sub_theories sub). getProperty ct n \<noteq> Inherited"
      using Cons.prems(2) by simp
    ultimately have "\<forall>r \<in> set (fold (\<lambda>(_, subCluster) rows.
        fold (pushTheoryRow ct ?n2c topNames subCluster)
          (sub_theories subCluster) rows) xs
          (fold (pushTheoryRow ct ?n2c topNames sub) (sub_theories sub) acc)). ?P r"
      by (rule Cons.IH)
    then show ?case by (simp add: a)
  qed
  from outer[of "[]" scd] assms show ?thesis by (simp add: theoryRows_def)
qed

lemma pushTheoryRow_mono:
  "set rows \<subseteq> set (pushTheoryRow ct n2c topNames sub theoryName rows)"
proof (cases "getProperty ct theoryName = Missing")
  case True
  show ?thesis
    by (simp add: pushTheoryRow_fallback[OF True] split: option.split) auto
next
  case False
  show ?thesis
    by (simp add: pushTheoryRow_found[OF False]) auto
qed

lemma pushTheoryRow_direct:
  "map_of ct theoryName = Some d \<Longrightarrow>
   pushTheoryRow ct n2c topNames sub theoryName rows
   = rows @ [\<lparr>row_subtopic = sub_topic sub, row_theory = theoryName,
              row_citations = Some (citation d), isTopThree = (theoryName \<in> set topNames)\<rparr>]"
  by (simp add: pushTheoryRow_found getProperty_Own citationOf_def)

lemma inner_rows_mono:
  "set rows \<subseteq> set (fold (pushTheoryRow ct n2c topNames sub) names rows)"
proof (induction names arbitrary: rows)
  case Nil
  show ?case by simp
next
  case (Cons n names)
  show ?case
    using pushTheoryRow_mono[of rows ct n2c topNames sub n]
      Cons.IH[of "pushTheoryRow ct n2c topNames sub n rows"]
    by auto
qed

lemma inner_rows_direct:
  assumes "theoryName \<in> set names" and "map_of ct theoryName = Some d"
  shows "\<lparr>row_subtopic = sub_topic sub, row_theory = theoryName,
          row_citations = Some (citation d), isTopThree = (theoryName \<in> set topNames)\<rparr>
         \<in> set (fold (pushTheoryRow ct n2c topNames sub) names rows)"
  using assms(1)
proof (induction names arbitrary: rows)
  case Nil
  then show ?case by simp
next
  case (Cons n names)
  show ?case
  proof (cases "n = theoryName")
    case True
    have "\<lparr>row_subtopic = sub_topic sub, row_theory = theoryName,
          row_citations = Some (citation d), isTopThree = (theoryName \<in> set topNames)\<rparr>
         \<in> set (pushTheoryRow ct n2c topNames sub theoryName rows)"
      by (simp add: pushTheoryRow_direct[OF assms(2)])
    then show ?thesis
      using inner_rows_mono[of "pushTheoryRow ct n2c topNames sub theoryName rows"
          ct n2c topNames sub names] True
      by auto
  next
    case False
    with Cons.prems have "theoryName \<in> set names" by simp
    from Cons.IH[OF this] show ?thesis by simp
  qed
qed

lemma theoryRows_direct:
  assumes "(k, sub) \<in> set scd" and "theoryName \<in> set (sub_theories sub)"
    and "map_of ct theoryName = Some d"
  shows "\<lparr>row_subtopic = sub_topic sub, row_theory = theoryName,
          row_citations = Some (citation d), isTopThree = (theoryName \<in> set topNames)\<rparr>
         \<in> set (theoryRows ct n2c topNames scd)"
proof -
  let ?row = "\<lparr>row_subtopic = sub_topic sub, row_theory = theoryName,
          row_citations = Some (citation d), isTopThree = (theoryName \<in> set topNames)\<rparr>"
  let ?F = "\<lambda>(_, subCluster) rows.
        fold (pushTheoryRow ct n2c topNames subCluster) (sub_theories subCluster) rows"
  have mono: "set acc \<subseteq> set (fold ?F xs acc)" for xs acc
  proof (induction xs arbitrary: acc)
    case Nil
    show ?case by simp
  next
    case (Cons a xs)
    obtain k' s' where a: "a = (k', s')" by (cases a)
    show ?case
      using Cons.IH[of "fold (pushTheoryRow ct n2c topNames s') (sub_theories s') acc"]
        inner_rows_mono[of acc ct n2c topNames s' "sub_theories s'"]
      by (auto simp: a)
  qed
  have "?row \<in> set (fold ?F xs acc)" if "(k, sub) \<in> set xs" for xs acc
    using that
  proof (induction xs arbitrary: acc)
    case Nil
    then show ?case by simp
  next
    case (Cons a xs)
    show ?case
    proof (cases "a = (k, sub)")
      case True
      have "?row \<in> set (fold (pushTheoryRow ct n2c topNames sub) (sub_theories sub) acc)"
        by (rule inner_rows_direct[OF assms(2,3)])
      then show ?thesis
        using mono[of "fold (pushTheoryRow ct n2c topNames sub) (sub_theories sub) acc" xs] True
        by auto
    next
      case False
      with Cons.prems have "(k, sub) \<in> set xs" by simp
      from Cons.IH[OF this] show ?thesis by (simp add: split_def)
    qed
  qed
  from this[OF assms(1)] show ?thesis by (simp add: theoryRows_def)
qed

lemma mset_insertBy: "mset (insertBy cmp x xs) = add_mset x (mset xs)"
  by (induction xs) auto

lemma mset_stableSort: "mset (stableSort cmp xs) = mset xs"
  unfolding stableSort_def by (induction xs) (auto simp: mset_insertBy)

lemma set_stableSort: "set (stableSort cmp xs) = set xs"
  using mset_stableSort[of cmp xs] by (metis set_mset_mset)

lemma consistent_key:
  fixes key :: "'a \<Rightarrow> 'k::linorder"
  assumes "\<And>a b. a \<in> set xs \<Longrightarrow> b \<in> set xs \<Longrightarrow>
      (cmp a b < 0 \<longleftrightarrow> key a < key b) \<and> (cmp a b = 0 \<longleftrightarrow> key a = key b)
      \<and> (0 < cmp a b \<longleftrightarrow> key b < key a)"
  shows "consistent cmp xs"
proof -
  have r: "cmp a a = 0" if "a \<in> set xs" for a
    using assms[OF that that] by simp
  have s: "cmp b a = 0" if "a \<in> set xs" "b \<in> set xs" "cmp a b = 0" for a b
    using assms[OF that(1,2)] assms[OF that(2,1)] that(3) by simp
  have t0: "cmp a c = 0"
    if "a \<in> set xs" "b \<in> set xs" "c \<in> set xs" "cmp a b = 0" "cmp b c = 0" for a b c
    using assms[OF that(1,2)] assms[OF that(2,3)] assms[OF that(1,3)] that(4,5) by simp
  have tl: "cmp a c < 0"
    if "a \<in> set xs" "b \<in> set xs" "c \<in> set xs" "cmp a b < 0" "cmp b c < 0" for a b c
  proof -
    have "key a < key b" "key b < key c"
      using assms[OF that(1,2)] assms[OF that(2,3)] that(4,5) by simp_all
    then have "key a < key c" by (rule less_trans)
    then show ?thesis using assms[OF that(1,3)] by simp
  qed
  have tg: "0 < cmp a c"
    if "a \<in> set xs" "b \<in> set xs" "c \<in> set xs" "0 < cmp a b" "0 < cmp b c" for a b c
  proof -
    have "key c < key b" "key b < key a"
      using assms[OF that(1,2)] assms[OF that(2,3)] that(4,5) by simp_all
    then have "key c < key a" by (rule less_trans)
    then show ?thesis using assms[OF that(1,3)] by simp
  qed
  have ite: "(if P then Q else True) \<longleftrightarrow> (P \<longrightarrow> Q)" for P Q by simp
  show ?thesis
    unfolding consistent_def list_all_iff ite
    using r s t0 tl tg by blast
qed

lemma compareRows_key:
  assumes "row_citations a = Some x" "row_citations b = Some y"
  shows "(compareRows so a b < 0 \<longleftrightarrow> (orderOf so a, - x) < (orderOf so b, - y))
       \<and> (compareRows so a b = 0 \<longleftrightarrow> (orderOf so a, - x) = (orderOf so b, - y))
       \<and> (0 < compareRows so a b \<longleftrightarrow> (orderOf so b, - y) < (orderOf so a, - x))"
proof -
  have c: "compareRows so a b
           = (if orderOf so a \<noteq> orderOf so b then int (orderOf so a) - int (orderOf so b)
              else y - x)"
    using assms by (simp add: compareRows_def Let_def)
  show ?thesis
    unfolding c by (cases "orderOf so a = orderOf so b") auto
qed

lemma compareRows_consistent:
  assumes "\<forall>r \<in> set rows. row_citations r \<noteq> None"
  shows "consistent (compareRows so) rows"
proof (rule consistent_key[where key = "\<lambda>r. (orderOf so r, - the (row_citations r))"])
  fix a b assume "a \<in> set rows" "b \<in> set rows"
  with assms have "row_citations a \<noteq> None" "row_citations b \<noteq> None" by simp_all
  then obtain x y where "row_citations a = Some x" "row_citations b = Some y"
    by auto
  from compareRows_key[OF this, of so] this
  show "(compareRows so a b < 0
           \<longleftrightarrow> (orderOf so a, - the (row_citations a)) < (orderOf so b, - the (row_citations b)))
      \<and> (compareRows so a b = 0
           \<longleftrightarrow> (orderOf so a, - the (row_citations a)) = (orderOf so b, - the (row_citations b)))
      \<and> (0 < compareRows so a b
           \<longleftrightarrow> (orderOf so b, - the (row_citations b)) < (orderOf so a, - the (row_citations a)))"
    by simp
qed

lemma getTheoryTableData_rows:
  assumes "map_of (secondaryClusters st) (clusterKeyOf eng pid) = Some scd"
    and "map_of (theoryPool st) (clusterKeyOf eng pid) = Some ct"
  shows "getTheoryTableData eng st pid
         = sortRows eng (compareRows (subtopicOrderMap scd))
             (theoryRows ct (normalizedToCanonicalMap ct) (map top_name (getTopTheories ct 3)) scd)"
  using assms by (simp add: getTheoryTableData_def Let_def)

lemma table_set:
  assumes "map_of (secondaryClusters st) (clusterKeyOf eng pid) = Some scd"
    and "map_of (theoryPool st) (clusterKeyOf eng pid) = Some ct"
    and "\<forall>(k, sub) \<in> set scd. \<forall>n \<in> set (sub_theories sub). getProperty ct n \<noteq> Inherited"
  shows "set (getTheoryTableData eng st pid)
         = set (theoryRows ct (normalizedToCanonicalMap ct) (map top_name (getTopTheories ct 3)) scd)"
proof -
  let ?rows = "theoryRows ct (normalizedToCanonicalMap ct) (map top_name (getTopTheories ct 3)) scd"
  have "\<forall>r \<in> set ?rows. row_citations r \<noteq> None"
    using theoryRows_marks[OF _ assms(3)] by auto
  then have "consistent (compareRows (subtopicOrderMap scd)) ?rows"
    by (rule compareRows_consistent)
  then show ?thesis
    by (simp add: getTheoryTableData_rows[OF assms(1,2)] sortRows_def set_stableSort)
qed

lemma sortRows_consistent:
  "consistent cmp rows \<Longrightarrow> sortRows eng cmp rows = stableSort cmp rows"
  by (simp add: sortRows_def)

lemma ex_table_rows:
  "getTheoryTableData eng (exTable pool names) ''Cluster 0''
   = sortRows eng (compareRows (subtopicOrderMap (exSubtopic names)))
       (theoryRows pool (normalizedToCanonicalMap pool) (map top_name (getTopTheories pool 3))
          (exSubtopic names))"
  by (rule getTheoryTableData_rows) (simp_all add: ex_cluster_keys exTable_def)

lemma ex_ties_keys:
  "map_of (secondaryClusters (exTable exTies [''D'', ''C'', ''B'', ''A''])) (clusterKeyOf eng ''Cluster 0'')
     = Some (exSubtopic [''D'', ''C'', ''B'', ''A''])"
  "map_of (theoryPool (exTable exTies [''D'', ''C'', ''B'', ''A''])) (clusterKeyOf eng ''Cluster 0'')
     = Some exTies"
  by (simp_all add: ex_cluster_keys exTable_def)

lemma ex_ties_top: "map top_name (getTopTheories exTies 3) = [''A'', ''B'', ''C'']"
  by code_simp

lemma ex_ties_table:
  "getTheoryTableData exEngine (exTable exTies [''D'', ''C'', ''B'', ''A'']) ''Cluster 0'' =
     [\<lparr>row_subtopic = ''S0'', row_theory = ''B'', row_citations = Some 10, isTopThree = True\<rparr>,
      \<lparr>row_subtopic = ''S0'', row_theory = ''A'', row_citations = Some 10, isTopThree = True\<rparr>,
      \<lparr>row_subtopic = ''S0'', row_theory = ''C'', row_citations = Some 5, isTopThree = True\<rparr>,
      \<lparr>row_subtopic = ''S0'', row_theory = ''D'', row_citations = Some 1, isTopThree = False\<rparr>]"
  unfolding ex_table_rows by code_simp

lemma ex_ties_outranks:
  "outranks exTies 0 3" "outranks exTies 1 3" "outranks exTies 2 3" "\<not> outranks exTies 3 3"
  by (simp_all add: outranks_def exTies_def)

lemma ex_ties_rank_D: "{j. j < length exTies \<and> outranks exTies j 3} = {0, 1, 2}"
proof -
  have len: "length exTies = 4" by (simp add: exTies_def)
  have cases: "j = 0 \<or> j = 1 \<or> j = 2 \<or> j = 3" if "j < 4" for j :: nat
    using that by arith
  show ?thesis
  proof (intro equalityI subsetI)
    fix j assume "j \<in> {j. j < length exTies \<and> outranks exTies j 3}"
    then have "j < 4" and o: "outranks exTies j 3" by (simp_all add: len)
    from cases[OF this(1)] o ex_ties_outranks(4) show "j \<in> {0, 1, 2}" by auto
  next
    fix j :: nat assume "j \<in> {0, 1, 2}"
    then have "j = 0 \<or> j = 1 \<or> j = 2" by simp
    then show "j \<in> {j. j < length exTies \<and> outranks exTies j 3}"
      using ex_ties_outranks len by auto
  qed
qed

text \<open>
  Claim C4, as amended. The flag sits on a row, and a theory has a row only where a
  subtopic lists it. For a Psychology topic with its subtopics and its pool, no
  subtopic listing an inherited name the pool does not hold: every row of the theory
  table names a theory of the pool, carries its citation count and is marked
  \<^verbatim>\<open>isTopThree\<close> exactly when that theory is one of the top names; the theory at
  position \<open>i\<close> of the pool is a top name exactly when fewer than three theories outrank
  it (more citations, or as many and earlier in the pool's enumeration); there are three
  top names, or as many as the pool has theories when these are fewer; with at most
  three theories in the pool every row is marked; and every top name that a subtopic
  lists has its marked row. So the marked theories are the top names that some subtopic
  lists, not all three whatever the subtopics list.
\<close>

theorem top_three_marking:
  assumes "map_of (secondaryClusters st) (clusterKeyOf eng pid) = Some scd"
    and "map_of (theoryPool st) (clusterKeyOf eng pid) = Some ct"
    and "distinct (map fst ct)"
    and "\<forall>(k, sub) \<in> set scd. \<forall>n \<in> set (sub_theories sub). getProperty ct n \<noteq> Inherited"
  shows "(\<forall>r \<in> set (getTheoryTableData eng st pid).
            row_theory r \<in> fst ` set ct
            \<and> row_citations r = Some (citation (the (map_of ct (row_theory r))))
            \<and> (isTopThree r \<longleftrightarrow> row_theory r \<in> set (map top_name (getTopTheories ct 3))))
     \<and> (\<forall>i < length ct.
            fst (ct ! i) \<in> set (map top_name (getTopTheories ct 3))
            \<longleftrightarrow> card {j. j < length ct \<and> outranks ct j i} < 3)
     \<and> set (map top_name (getTopTheories ct 3)) \<subseteq> fst ` set ct
     \<and> card (set (map top_name (getTopTheories ct 3))) = min 3 (length ct)
     \<and> (length ct \<le> 3 \<longrightarrow> (\<forall>r \<in> set (getTheoryTableData eng st pid). isTopThree r))
     \<and> (\<forall>(k, sub) \<in> set scd. \<forall>n \<in> set (sub_theories sub).
            n \<in> set (map top_name (getTopTheories ct 3)) \<longrightarrow>
            \<lparr>row_subtopic = sub_topic sub, row_theory = n,
              row_citations = Some (citation (the (map_of ct n))), isTopThree = True\<rparr>
            \<in> set (getTheoryTableData eng st pid))"
proof -
  let ?top = "map top_name (getTopTheories ct 3)"
  note tset = table_set[OF assms(1,2,4)]
  have 1: "\<forall>r \<in> set (getTheoryTableData eng st pid).
            row_theory r \<in> fst ` set ct
            \<and> row_citations r = Some (citation (the (map_of ct (row_theory r))))
            \<and> (isTopThree r \<longleftrightarrow> row_theory r \<in> set ?top)"
    using theoryRows_marks[OF _ assms(4), of _ ?top] by (simp only: tset) blast
  have 2: "\<forall>i < length ct. fst (ct ! i) \<in> set ?top
            \<longleftrightarrow> card {j. j < length ct \<and> outranks ct j i} < 3"
    using top_names_rank[OF assms(3)] by blast
  have "set (getTopTheories ct 3)
        \<subseteq> set (map (\<lambda>(name, d). \<lparr>top_name = name, top_citations = citation d\<rparr>) ct)"
    unfolding getTopTheories_def using set_take_subset[of 3] by (metis set_sort)
  then have 3: "set ?top \<subseteq> fst ` set ct" by force
  have 4: "card (set ?top) = min 3 (length ct)"
    by (rule top_names_card[OF assms(3)])
  have 5: "\<forall>r \<in> set (getTheoryTableData eng st pid). isTopThree r" if le: "length ct \<le> 3"
  proof
    fix r assume r: "r \<in> set (getTheoryTableData eng st pid)"
    with 1 have k: "row_theory r \<in> fst ` set ct" and m: "isTopThree r \<longleftrightarrow> row_theory r \<in> set ?top"
      by blast+
    have "card (fst ` set ct) = length ct"
      using assms(3) distinct_card[of "map fst ct"] by simp
    with 4 le have "card (set ?top) = card (fst ` set ct)" by simp
    with 3 have "set ?top = fst ` set ct"
      by (simp add: card_subset_eq)
    with k m show "isTopThree r" by simp
  qed
  have 6: "\<lparr>row_subtopic = sub_topic sub, row_theory = n,
              row_citations = Some (citation (the (map_of ct n))), isTopThree = True\<rparr>
            \<in> set (getTheoryTableData eng st pid)"
    if "(k, sub) \<in> set scd" "n \<in> set (sub_theories sub)" "n \<in> set ?top" for k sub n
  proof -
    from that(3) 3 have "n \<in> fst ` set ct" by blast
    then obtain d where d: "map_of ct n = Some d"
      using map_of_eq_None_iff[of ct n] by auto
    from theoryRows_direct[OF that(1,2) d, of ?top "normalizedToCanonicalMap ct"] that(3) d
    show ?thesis
      by (simp only: tset) simp
  qed
  from 1 2 3 4 5 6 show ?thesis by blast
qed

theorem top_three_marking_witness:
  "map_of (theoryPool (exTable exTies [''D'', ''C'', ''B'', ''A''])) (clusterKeyOf exEngine ''Cluster 0'')
     = Some exTies
   \<and> distinct (map fst exTies)
   \<and> getProperty exTies ''D'' \<noteq> Inherited
   \<and> map (\<lambda>(n, d). citation d) exTies = [10, 10, 5, 1]
   \<and> card (set (map top_name (getTopTheories exTies 3))) = 3
   \<and> fst (exTies ! 3) = ''D''
   \<and> ''D'' \<notin> set (map top_name (getTopTheories exTies 3))
   \<and> card {j. j < length exTies \<and> outranks exTies j 3} = 3
   \<and> set (map top_name (getTopTheories exTies 3)) = {''A'', ''B'', ''C''}
   \<and> map isTopThree (getTheoryTableData exEngine (exTable exTies [''D'', ''C'', ''B'', ''A'']) ''Cluster 0'')
       = [True, True, True, False]"
proof -
  have d: "distinct (map fst exTies)" by (simp add: exTies_def)
  have len: "length exTies = 4" "fst (exTies ! 3) = ''D''"
      "map (\<lambda>(n, d). citation d) exTies = [10, 10, 5, 1]"
    by (simp_all add: exTies_def)
  have own: "\<forall>(k, sub) \<in> set (exSubtopic [''D'', ''C'', ''B'', ''A'']).
      \<forall>n \<in> set (sub_theories sub). getProperty exTies n \<noteq> Inherited"
    by (simp add: exSubtopic_def exTies_def getProperty_def)
  then have o: "getProperty exTies ''D'' \<noteq> Inherited"
    by (simp add: exSubtopic_def)
  note inst = top_three_marking[OF ex_ties_keys d own, of exEngine]
  from inst have c: "card (set (map top_name (getTopTheories exTies 3))) = 3"
    by (simp add: len)
  have r: "card {j. j < length exTies \<and> outranks exTies j 3} = 3"
    by (simp add: ex_ties_rank_D)
  from inst have "fst (exTies ! 3) \<in> set (map top_name (getTopTheories exTies 3))
      \<longleftrightarrow> card {j. j < length exTies \<and> outranks exTies j 3} < 3"
    using len(1) by simp
  with r len(2) have n: "''D'' \<notin> set (map top_name (getTopTheories exTies 3))"
    by simp
  have s: "set (map top_name (getTopTheories exTies 3)) = {''A'', ''B'', ''C''}"
    by (simp add: ex_ties_top)
  have m: "map isTopThree (getTheoryTableData exEngine (exTable exTies [''D'', ''C'', ''B'', ''A'']) ''Cluster 0'')
       = [True, True, True, False]"
    by (simp add: ex_ties_table)
  from ex_ties_keys(2)[of exEngine] d o len c n r s m show ?thesis by simp
qed

text \<open>
  With citation counts 10, 10, 5 and 1 for \<^verbatim>\<open>A\<close>, \<^verbatim>\<open>B\<close>, \<^verbatim>\<open>C\<close> and \<^verbatim>\<open>D\<close>, and
  \<^verbatim>\<open>D\<close> the only theory a subtopic lists, the top three are \<^verbatim>\<open>A\<close>, \<^verbatim>\<open>B\<close> and
  \<^verbatim>\<open>C\<close>, the table has the one row of \<^verbatim>\<open>D\<close>, and nothing is marked.
\<close>

theorem unlisted_top_three_counterexample:
  "map (\<lambda>(n, d). citation d) exTies = [10, 10, 5, 1]
   \<and> map top_name (getTopTheories exTies 3) = [''A'', ''B'', ''C'']
   \<and> getTheoryTableData exEngine (exTable exTies [''D'']) ''Cluster 0'' =
       [\<lparr>row_subtopic = ''S0'', row_theory = ''D'', row_citations = Some 1, isTopThree = False\<rparr>]
   \<and> filter isTopThree (getTheoryTableData exEngine (exTable exTies [''D'']) ''Cluster 0'') = []"
proof -
  have t: "getTheoryTableData exEngine (exTable exTies [''D'']) ''Cluster 0'' =
       [\<lparr>row_subtopic = ''S0'', row_theory = ''D'', row_citations = Some 1, isTopThree = False\<rparr>]"
    unfolding ex_table_rows by code_simp
  have c: "map (\<lambda>(n, d). citation d) exTies = [10, 10, 5, 1]"
    by (simp add: exTies_def)
  from t c ex_ties_top show ?thesis by simp
qed

text \<open>
  Claim C3 says that a subtopic's theory name resolves by its exact name, else by its
  normalized form against the normalized pool names, and that a name matching neither
  way gives no row. The code breaks both halves on a missed case each. The fallback
  reads \<^verbatim>\<open>normalizedToCanonical.get(normalizedName) || theoryName\<close>: a pool theory
  with the empty name is falsy there, so the subtopic name \<^verbatim>\<open>mental\<close> followed by a
  space, whose normalized form is that of the empty name, gets no row although the
  normalized forms match. And the exact read \<^verbatim>\<open>clusterTheories[theoryName]\<close> finds what
  every object inherits: the name \<^verbatim>\<open>toString\<close>, which matches no pool name either
  way, gets a row, with no citation count.
\<close>

theorem name_resolution_missed_cases:
  "normalizeTheoryName ''mental '' = normalizeTheoryName ''''
   \<and> resolveTheoryName_spec exNameless ''mental '' = Some ''''
   \<and> getTheoryTableData eng (exTable exNameless [''mental '']) ''Cluster 0'' = []
   \<and> resolveTheoryName_spec exPool ''toString'' = None
   \<and> getTheoryTableData eng (exTable exPool [''toString'']) ''Cluster 0'' =
       [\<lparr>row_subtopic = ''S0'', row_theory = ''toString'', row_citations = None,
         isTopThree = False\<rparr>]"
proof -
  have n: "normalizeTheoryName ''mental '' = []" "normalizeTheoryName '''' = []"
    by code_simp+
  have 1: "resolveTheoryName_spec exNameless ''mental '' = Some ''''"
    by (simp add: resolveTheoryName_spec_def exNameless_def n)
  have r1: "theoryRows exNameless (normalizedToCanonicalMap exNameless)
      (map top_name (getTopTheories exNameless 3)) (exSubtopic [''mental '']) = []"
    by code_simp
  have 2: "getTheoryTableData eng (exTable exNameless [''mental '']) ''Cluster 0'' = []"
    unfolding ex_table_rows r1 by (simp add: sortRows_def consistent_def stableSort_def)
  have 3: "resolveTheoryName_spec exPool ''toString'' = None"
    by code_simp
  have r2: "theoryRows exPool (normalizedToCanonicalMap exPool)
      (map top_name (getTopTheories exPool 3)) (exSubtopic [''toString''])
      = [\<lparr>row_subtopic = ''S0'', row_theory = ''toString'', row_citations = None,
          isTopThree = False\<rparr>]"
    by code_simp
  have 4: "getTheoryTableData eng (exTable exPool [''toString'']) ''Cluster 0'' =
       [\<lparr>row_subtopic = ''S0'', row_theory = ''toString'', row_citations = None,
         isTopThree = False\<rparr>]"
    unfolding ex_table_rows r2
    by (simp add: sortRows_def consistent_def stableSort_def compareRows_def)
  from n 1 2 3 4 show ?thesis by simp
qed

text \<open>
  Claim C9 says that a subtopic's theory name that is not a name of the pool and
  resolves through its normalized form gets a row with the pool's own name, flagged by
  that name's membership in the top three. The exact read
  \<^verbatim>\<open>clusterTheories[theoryName]\<close> also finds what every object inherits, and then the
  fallback is never tried: with the pool theory \<^verbatim>\<open>Constructor\<close>, the subtopic name
  \<^verbatim>\<open>constructor\<close> is no name of the pool and has the pool name's normalized form, yet
  the row carries the subtopic's spelling, no citation count and no flag, although the
  pool's name is in the top three.
\<close>

theorem canonical_name_missed_case:
  "''constructor'' \<notin> fst ` set exCapital
   \<and> normalizeTheoryName ''Constructor'' = normalizeTheoryName ''constructor''
   \<and> resolveTheoryName_spec exCapital ''constructor'' = Some ''Constructor''
   \<and> map top_name (getTopTheories exCapital 3) = [''Constructor'']
   \<and> getTheoryTableData eng (exTable exCapital [''constructor'']) ''Cluster 0'' =
       [\<lparr>row_subtopic = ''S0'', row_theory = ''constructor'', row_citations = None,
         isTopThree = False\<rparr>]"
proof -
  have 1: "''constructor'' \<notin> fst ` set exCapital"
    by (simp add: exCapital_def)
  have n: "normalizeTheoryName ''Constructor'' = ''constructor''"
      "normalizeTheoryName ''constructor'' = ''constructor''"
    by code_simp+
  have 2: "resolveTheoryName_spec exCapital ''constructor'' = Some ''Constructor''"
    by (simp add: resolveTheoryName_spec_def exCapital_def n)
  have 3: "map top_name (getTopTheories exCapital 3) = [''Constructor'']"
    by code_simp
  have r: "theoryRows exCapital (normalizedToCanonicalMap exCapital)
      (map top_name (getTopTheories exCapital 3)) (exSubtopic [''constructor''])
      = [\<lparr>row_subtopic = ''S0'', row_theory = ''constructor'', row_citations = None,
          isTopThree = False\<rparr>]"
    by code_simp
  have 4: "getTheoryTableData eng (exTable exCapital [''constructor'']) ''Cluster 0'' =
       [\<lparr>row_subtopic = ''S0'', row_theory = ''constructor'', row_citations = None,
         isTopThree = False\<rparr>]"
    unfolding ex_table_rows r
    by (simp add: sortRows_def consistent_def stableSort_def compareRows_def)
  from 1 n 2 3 4 show ?thesis by simp
qed

end
